theory Spec2Isabelle
  imports Main "HOL-Library.Sublist"
begin

section \<open>The arbitrary-utility migration of the Tailwind CSS upgrade tool\<close>

text \<open>
  A shallow embedding of
  \<^verbatim>\<open>packages/@tailwindcss-upgrade/src/codemods/template/migrate-arbitrary-utilities.ts\<close>.
  The design system (parser, printer, catalog, theme, CSS compiler), the signature table
  and the imported helpers are collaborators of that module: they are parameters of the
  model, gathered in two records. Every function of the module itself is translated
  statement by statement.
\<close>

subsection \<open>Candidates\<close>

text \<open>
  Modelled from the spec: the \<^verbatim>\<open>Candidate\<close> type, declared in
  \<^verbatim>\<open>tailwindcss/src/candidate\<close>. A candidate has a kind (static, functional, arbitrary),
  an optional value (a named or an arbitrary one for a functional utility, the free-form
  string for an arbitrary property), an optional modifier, a list of variants and the
  important flag. The engine never looks into a variant; it is kept as an opaque datum.
  The field \<open>modifier\<close> is present for every kind, so that the object built by
  \<^verbatim>\<open>Object.assign({}, replacementCandidate, { modifier })\<close> is a value of the type also
  when the replacement is a static utility; \<open>None\<close> is JavaScript's \<^verbatim>\<open>null\<close> (or the
  absent property of a static utility).
\<close>

datatype variant = Variant string

datatype candidate_modifier = ArbitraryModifier string | NamedModifier string

datatype utility_value =
    ArbitraryValue "string option" string  \<comment> \<open>\<^verbatim>\<open>{ kind: 'arbitrary', dataType, value }\<close>\<close>
  | NamedValue string "string option"      \<comment> \<open>\<^verbatim>\<open>{ kind: 'named', value, fraction }\<close>\<close>

datatype utility =
    Static string                            \<comment> \<open>\<^verbatim>\<open>{ kind: 'static', root }\<close>\<close>
  | Functional string "utility_value option" \<comment> \<open>\<^verbatim>\<open>{ kind: 'functional', root, value }\<close>\<close>
  | Arbitrary string string                  \<comment> \<open>\<^verbatim>\<open>{ kind: 'arbitrary', property, value }\<close>\<close>

record candidate =
  utility :: utility
  modifier :: "candidate_modifier option"
  variants :: "variant list"
  important :: bool

subsection \<open>Collaborators\<close>

text \<open>
  The methods of the \<^verbatim>\<open>DesignSystem\<close> object that the module calls, and the table
  \<^verbatim>\<open>computeUtilitySignature.get(designSystem)\<close>, which is keyed by the same object. A
  signature is a string; \<open>None\<close> stands for every result that is not a string
  (\<^verbatim>\<open>typeof signature !== 'string'\<close>). \<^verbatim>\<open>candidatesToCss\<close> gives one entry per class,
  \<^verbatim>\<open>null\<close> for a class that compiles to nothing. The collaborators are functions: they
  return for every argument, and what they return depends on the argument only.
\<close>

record design_system =
  ds_parseCandidate :: "string \<Rightarrow> candidate list"
  ds_printCandidate :: "candidate \<Rightarrow> string"
  ds_candidatesToCss :: "string list \<Rightarrow> string option list"
  ds_resolveThemeValue :: "string \<Rightarrow> string option"
  ds_getClassList :: "(string \<times> string list) list"
  ds_functional_keys :: "string list"
  ds_theme_prefix :: "string option"
  signatures :: "string \<Rightarrow> string option"

text \<open>
  Modelled from the spec: the parsed value-expression tree of
  \<^verbatim>\<open>tailwindcss/src/value-parser\<close>, whose declaration is not among the sources at hand:
  words, functions with their argument nodes, and separators; every node has a
  \<^verbatim>\<open>value\<close>.
\<close>

datatype ast_node =
    WordNode string
  | FunctionNode string "ast_node list"
  | SeparatorNode string

text \<open>
  The imported helpers and the JavaScript built-ins whose code is not part of the module.
  Numbers are IEEE doubles in the source; the model leaves their carrier \<open>'n\<close>, their
  division and their conversion to text open. \<open>RegExp_test pattern text\<close> is
  \<^verbatim>\<open>new RegExp(pattern, 'g').test(text)\<close> on a fresh expression, \<open>None\<close> when the
  constructor throws a \<^verbatim>\<open>SyntaxError\<close>.
\<close>

record 'n helpers =
  isValidSpacingMultiplier :: "string \<Rightarrow> bool"
  dimensions :: "string \<Rightarrow> ('n \<times> string option) option"
  divide_number :: "'n \<Rightarrow> 'n \<Rightarrow> 'n"
  number_toString :: "'n \<Rightarrow> string"
  printModifier :: "candidate_modifier option \<Rightarrow> string"
  ValueParser_parse :: "string \<Rightarrow> ast_node list"
  RegExp_test :: "string \<Rightarrow> string \<Rightarrow> bool option"

subsection \<open>The Signature Index: \<^verbatim>\<open>preComputedUtilities\<close>\<close>

text \<open>
  A \<^verbatim>\<open>DefaultMap\<close> from signatures to lists of class names, with the empty list as the
  default: a function. The two nested iterations of the source are two folds.
\<close>

type_synonym lookup = "string \<Rightarrow> string list"

definition push :: "string \<Rightarrow> string \<Rightarrow> lookup \<Rightarrow> lookup" where
  "push signature className lookup = lookup(signature := lookup signature @ [className])"

definition add_modifier :: "'n helpers \<Rightarrow> design_system \<Rightarrow> string \<Rightarrow> lookup \<Rightarrow> string \<Rightarrow> lookup" where
  "add_modifier h ds className lookup modifier' =
     (if isValidSpacingMultiplier h modifier' then lookup
      else
        (let classNameWithModifier = className @ ''/'' @ modifier' in
         case signatures ds classNameWithModifier of
           None \<Rightarrow> lookup
         | Some signature \<Rightarrow> push signature classNameWithModifier lookup))"

definition add_class :: "'n helpers \<Rightarrow> design_system \<Rightarrow> lookup \<Rightarrow> string \<times> string list \<Rightarrow> lookup" where
  "add_class h ds lookup entry =
     (case entry of (className, modifiers) \<Rightarrow>
        (case signatures ds className of
           None \<Rightarrow> lookup
         | Some signature \<Rightarrow>
             foldl (add_modifier h ds className) (push signature className lookup) modifiers))"

definition preComputedUtilities :: "'n helpers \<Rightarrow> design_system \<Rightarrow> lookup" where
  "preComputedUtilities h ds = foldl (add_class h ds) (\<lambda>_. []) (ds_getClassList ds)"

subsection \<open>The Spacing-Multiplier Resolver: \<^verbatim>\<open>spacing\<close>\<close>

text \<open>
  \<open>None\<close> is the \<^verbatim>\<open>null\<close> table of a design system without a usable \<^verbatim>\<open>--spacing\<close>; the
  table itself maps a value to a number or to \<^verbatim>\<open>null\<close>.
\<close>

definition spacing :: "'n helpers \<Rightarrow> design_system \<Rightarrow> (string \<Rightarrow> 'n option) option" where
  "spacing h ds =
     (case ds_resolveThemeValue ds ''--spacing'' of
        None \<Rightarrow> None
      | Some spacingMultiplier \<Rightarrow>
          (case dimensions h spacingMultiplier of
             None \<Rightarrow> None
           | Some (value, unit) \<Rightarrow>
               Some (\<lambda>input.
                 case dimensions h input of
                   None \<Rightarrow> None
                 | Some (myValue, myUnit) \<Rightarrow>
                     if myUnit \<noteq> unit then None else Some (divide_number h myValue value))))"

text \<open>
  The value of \<^verbatim>\<open>spacing.get(designSystem)?.get(value)\<close>: optional chaining on the
  \<^verbatim>\<open>null\<close> table gives \<^verbatim>\<open>undefined\<close>, which is not \<^verbatim>\<open>null\<close>.
\<close>

datatype 'n multiplier = Undefined | Null | Number 'n

definition spacingMultiplier_of :: "'n helpers \<Rightarrow> design_system \<Rightarrow> string \<Rightarrow> 'n multiplier" where
  "spacingMultiplier_of h ds value =
     (case spacing h ds of
        None \<Rightarrow> Undefined
      | Some table \<Rightarrow> (case table value of None \<Rightarrow> Null | Some n \<Rightarrow> Number n))"

subsection \<open>Text built by template literals\<close>

text \<open>
  A template literal converts what it interpolates with \<^verbatim>\<open>ToString\<close>: a number by the
  number's own conversion, \<^verbatim>\<open>undefined\<close> to the word, and a plain object, such as a
  modifier \<^verbatim>\<open>{ kind, value }\<close>, to the text \<^verbatim>\<open>[object Object]\<close>.
\<close>

definition template_object :: "candidate_modifier \<Rightarrow> string" where
  "template_object m = ''[object Object]''"

definition template_multiplier :: "'n helpers \<Rightarrow> 'n multiplier \<Rightarrow> string" where
  "template_multiplier h sm =
     (case sm of Undefined \<Rightarrow> ''undefined'' | Null \<Rightarrow> ''null'' | Number n \<Rightarrow> number_toString h n)"

subsection \<open>\<^verbatim>\<open>parseCandidate\<close>: parsing with the prefix of the theme\<close>

definition parseCandidate :: "design_system \<Rightarrow> string \<Rightarrow> candidate list" where
  "parseCandidate ds input =
     ds_parseCandidate ds
       (case ds_theme_prefix ds of
          None \<Rightarrow> input
        | Some p \<Rightarrow> if p \<noteq> [] \<and> \<not> prefix (p @ '':'') input then p @ '':'' @ input else input)"

subsection \<open>The Replacement Search: \<^verbatim>\<open>tryReplacements\<close>\<close>

text \<open>
  The raw value of lines 215--216: the string of an arbitrary property, the inner value of
  a functional utility, \<^verbatim>\<open>null\<close> otherwise.
\<close>

definition raw_value :: "candidate \<Rightarrow> string option" where
  "raw_value c =
     (case utility c of
        Arbitrary property v \<Rightarrow> Some v
      | Functional root (Some (ArbitraryValue dataType v)) \<Rightarrow> Some v
      | Functional root (Some (NamedValue v fraction)) \<Rightarrow> Some v
      | Functional root None \<Rightarrow> None
      | Static root \<Rightarrow> None)"

text \<open>The body of the loop over the functional roots, lines 222--272, for one root.\<close>

definition functional_candidates ::
  "'n helpers \<Rightarrow> design_system \<Rightarrow> candidate \<Rightarrow> string \<Rightarrow> 'n multiplier \<Rightarrow> string \<Rightarrow> candidate list" where
  "functional_candidates h ds c value spacingMultiplier root =
     parseCandidate ds (root @ ''-'' @ value)
     @ (case modifier c of
          None \<Rightarrow> []
        | Some m \<Rightarrow> parseCandidate ds (root @ ''-'' @ value @ template_object m))
     @ (if spacingMultiplier \<noteq> Null then
          parseCandidate ds (root @ ''-'' @ template_multiplier h spacingMultiplier)
          @ (case modifier c of
               None \<Rightarrow> []
             | Some m \<Rightarrow>
                 parseCandidate ds
                   (root @ ''-'' @ template_multiplier h spacingMultiplier
                      @ printModifier h (modifier c)))
        else [])
     @ parseCandidate ds (root @ ''-['' @ value @ '']'')
     @ (case modifier c of
          None \<Rightarrow> []
        | Some m \<Rightarrow>
            parseCandidate ds (root @ ''-['' @ value @ '']'' @ printModifier h (modifier c)))"

text \<open>
  The generator, as the list of everything it yields, in order. The caller stops at the
  first candidate it accepts; the collaborators are pure, so what the generator would have
  computed afterwards has no effect.
\<close>

function tryReplacements ::
  "'n helpers \<Rightarrow> design_system \<Rightarrow> string \<Rightarrow> candidate \<Rightarrow> candidate list" where
  "tryReplacements h ds targetSignature c =
     (let replacements = preComputedUtilities h ds targetSignature in
      if length replacements > 1 then []
      else
        (if length replacements = 0 \<and> modifier c \<noteq> None then
           (let candidateWithoutModifier = c\<lparr>modifier := None\<rparr> in
            case signatures ds (ds_printCandidate ds candidateWithoutModifier) of
              None \<Rightarrow> []
            | Some targetSignatureWithoutModifier \<Rightarrow>
                map (\<lambda>replacementCandidate. replacementCandidate\<lparr>modifier := modifier c\<rparr>)
                  (tryReplacements h ds targetSignatureWithoutModifier candidateWithoutModifier))
         else [])
        @ (if length replacements = 1 then parseCandidate ds (replacements ! 0)
           else if length replacements = 0 then
             (case raw_value c of
                None \<Rightarrow> []
              | Some value \<Rightarrow>
                  concat (map (functional_candidates h ds c value (spacingMultiplier_of h ds value))
                    (ds_functional_keys ds)))
           else []))"
  by pat_completeness auto
termination
  by (relation "measure (\<lambda>(h, ds, s, c). if modifier c = None then 0 else 1)") auto

subsection \<open>The Variable Safety Check: \<^verbatim>\<open>allVariablesAreUsed\<close>\<close>

text \<open>
  What the check can raise: \<^verbatim>\<open>node.nodes[0].value\<close> on a \<^verbatim>\<open>var()\<close> without
  arguments is a \<^verbatim>\<open>TypeError\<close>, and the \<^verbatim>\<open>RegExp\<close> constructor throws a
  \<^verbatim>\<open>SyntaxError\<close> on a pattern that is not a regular expression.
\<close>

datatype error = TypeError | SyntaxError

text \<open>\<^verbatim>\<open>String.prototype.includes\<close>, and \<^verbatim>\<open>Array.prototype.join('\n')\<close>, which prints
  \<^verbatim>\<open>null\<close> as the empty string.\<close>

definition string_includes :: "string \<Rightarrow> string \<Rightarrow> bool" where
  "string_includes text needle = sublist needle text"

definition text_of :: "string option \<Rightarrow> string" where
  "text_of entry = (case entry of None \<Rightarrow> [] | Some s \<Rightarrow> s)"

fun join_lines :: "string option list \<Rightarrow> string" where
  "join_lines [] = []"
| "join_lines [entry] = text_of entry"
| "join_lines (entry # next # entries) = text_of entry @ [CHR 0x0A] @ join_lines (next # entries)"

text \<open>
  Modelled from the spec: \<^verbatim>\<open>ValueParser.walk\<close> of \<^verbatim>\<open>tailwindcss/src/value-parser\<close>,
  which scans the parsed value-expression tree: it visits every node before the nodes
  below it, in order, unless the callback answers \<^verbatim>\<open>Skip\<close> (the nodes below are left out)
  or \<^verbatim>\<open>Stop\<close> (the walk ends). The callback's effect on the variables it closes over is
  a state \<open>'s\<close> passed along.
\<close>

datatype walk_action = Continue | Skip | Stop

fun walk ::
  "('s \<Rightarrow> ast_node \<Rightarrow> error + 's \<times> walk_action) \<Rightarrow> 's \<Rightarrow> ast_node list
     \<Rightarrow> error + 's \<times> walk_action" where
  "walk visit s [] = Inr (s, Continue)"
| "walk visit s (node # rest) =
     (case visit s node of
        Inl e \<Rightarrow> Inl e
      | Inr (s1, Stop) \<Rightarrow> Inr (s1, Stop)
      | Inr (s1, Skip) \<Rightarrow> walk visit s1 rest
      | Inr (s1, Continue) \<Rightarrow>
          (case node of
             FunctionNode name nodes \<Rightarrow>
               (case walk visit s1 nodes of
                  Inl e \<Rightarrow> Inl e
                | Inr (s2, Stop) \<Rightarrow> Inr (s2, Stop)
                | Inr (s2, Skip) \<Rightarrow> walk visit s2 rest
                | Inr (s2, Continue) \<Rightarrow> walk visit s2 rest)
           | WordNode w \<Rightarrow> walk visit s1 rest
           | SeparatorNode w \<Rightarrow> walk visit s1 rest))"

definition node_value :: "ast_node \<Rightarrow> string" where
  "node_value node =
     (case node of WordNode v \<Rightarrow> v | FunctionNode v nodes \<Rightarrow> v | SeparatorNode v \<Rightarrow> v)"

text \<open>
  The pattern of line 324, \<^verbatim>\<open>var\(\<close> then the variable then \<^verbatim>\<open>[,)]\s*\<close>, and its test.
  When the variable's text has none of the characters that mean something in a regular
  expression, the pattern matches exactly where the text \<^verbatim>\<open>var(\<close>, the variable and one
  of \<^verbatim>\<open>,\<close> and \<^verbatim>\<open>)\<close> follow each other (\<^verbatim>\<open>\s*\<close> also matches nothing); any other
  pattern is left to the \<^verbatim>\<open>RegExp\<close> of the host.
\<close>

definition var_pattern :: "string \<Rightarrow> string" where
  "var_pattern variable =
     ''var'' @ [CHR 0x5C] @ ''('' @ variable @ ''[,)]'' @ [CHR 0x5C] @ ''s*''"

definition regexp_syntax :: "char set" where
  "regexp_syntax =
     {CHR 0x5C, CHR ''^'', CHR ''$'', CHR ''.'', CHR ''*'', CHR ''+'', CHR ''?'', CHR ''('',
      CHR '')'', CHR ''['', CHR '']'', CHR ''{'', CHR ''}'', CHR ''|''}"

definition test_var_pattern :: "'n helpers \<Rightarrow> string \<Rightarrow> string \<Rightarrow> bool option" where
  "test_var_pattern h variable text =
     (if set variable \<inter> regexp_syntax = {} then
        Some (string_includes text (''var('' @ variable @ '','') \<or> string_includes text (''var('' @ variable @ '')''))
      else RegExp_test h (var_pattern variable) text)"

text \<open>The callback of lines 321--336; its state is the variable \<^verbatim>\<open>isSafeMigration\<close>.\<close>

definition check_variable ::
  "'n helpers \<Rightarrow> string \<Rightarrow> bool \<Rightarrow> ast_node \<Rightarrow> error + bool \<times> walk_action" where
  "check_variable h replacementAsCss isSafeMigration node =
     (case node of
        FunctionNode name nodes \<Rightarrow>
          if name = ''var'' then
            (case nodes of
               [] \<Rightarrow> Inl TypeError
             | first # others \<Rightarrow>
                 (let variable = node_value first in
                  case test_var_pattern h variable replacementAsCss of
                    None \<Rightarrow> Inl SyntaxError
                  | Some used \<Rightarrow>
                      if \<not> used \<or> string_includes replacementAsCss (variable @ '':'')
                      then Inr (False, Stop)
                      else Inr (isSafeMigration, Continue)))
          else Inr (isSafeMigration, Continue)
      | WordNode w \<Rightarrow> Inr (isSafeMigration, Continue)
      | SeparatorNode w \<Rightarrow> Inr (isSafeMigration, Continue))"

text \<open>Lines 295--314: the value to scan, \<^verbatim>\<open>null\<close> when there is no \<^verbatim>\<open>var(--\<close> in it.\<close>

definition variable_value :: "candidate \<Rightarrow> string option" where
  "variable_value c =
     (case utility c of
        Functional root (Some (ArbitraryValue dataType v)) \<Rightarrow>
          if string_includes v ''var(--'' then Some v else None
      | Functional root (Some (NamedValue v fraction)) \<Rightarrow> None
      | Functional root None \<Rightarrow> None
      | Arbitrary property v \<Rightarrow> if string_includes v ''var(--'' then Some v else None
      | Static root \<Rightarrow> None)"

definition replacementAsCss_of :: "design_system \<Rightarrow> candidate \<Rightarrow> string" where
  "replacementAsCss_of ds replacement =
     join_lines (ds_candidatesToCss ds [ds_printCandidate ds replacement])"

definition allVariablesAreUsed ::
  "'n helpers \<Rightarrow> design_system \<Rightarrow> candidate \<Rightarrow> candidate \<Rightarrow> error + bool" where
  "allVariablesAreUsed h ds c replacement =
     (case variable_value c of
        None \<Rightarrow> Inr True
      | Some value \<Rightarrow>
          (case walk (check_variable h (replacementAsCss_of ds replacement)) True
                  (ValueParser_parse h value) of
             Inl e \<Rightarrow> Inl e
           | Inr (isSafeMigration, action) \<Rightarrow> Inr isSafeMigration))"

subsection \<open>The entry point: \<^verbatim>\<open>migrateArbitraryUtilities\<close>\<close>

text \<open>
  \<^verbatim>\<open>baseReplacementsCache.get(designSystem)\<close>, the only state of the module that a call
  changes: a \<^verbatim>\<open>Map\<close> from the printed base candidate to a candidate object.
\<close>

type_synonym cache = "string \<rightharpoonup> candidate"

text \<open>Lines 79--86: the candidates the loop does not skip.\<close>

definition eligible :: "candidate \<Rightarrow> bool" where
  "eligible c =
     (case utility c of
        Arbitrary property v \<Rightarrow> True
      | Functional root (Some (ArbitraryValue dataType v)) \<Rightarrow> True
      | Functional root (Some (NamedValue v fraction)) \<Rightarrow> False
      | Functional root None \<Rightarrow> False
      | Static root \<Rightarrow> False)"

text \<open>Lines 117--119: the candidate without variants and important flag.\<close>

definition base :: "candidate \<Rightarrow> candidate" where
  "base c = c\<lparr>important := False, variants := []\<rparr>"

text \<open>
  Lines 138--148: the first replacement that passes both tests, \<open>None\<close> when the
  generator is exhausted; an exception of the safety check ends the search.
\<close>

fun first_valid ::
  "'n helpers \<Rightarrow> design_system \<Rightarrow> string \<Rightarrow> candidate \<Rightarrow> candidate list
     \<Rightarrow> error + candidate option" where
  "first_valid h ds targetSignature c [] = Inr None"
| "first_valid h ds targetSignature c (replacementCandidate # rest) =
     (let replacementString = ds_printCandidate ds replacementCandidate;
          replacementSignature = signatures ds replacementString in
      if replacementSignature \<noteq> Some targetSignature then first_valid h ds targetSignature c rest
      else
        (case allVariablesAreUsed h ds c replacementCandidate of
           Inl e \<Rightarrow> Inl e
         | Inr safe \<Rightarrow>
             if \<not> safe then first_valid h ds targetSignature c rest
             else Inr (Some replacementCandidate)))"

text \<open>
  \<^verbatim>\<open>Object.assign(candidate, replacementCandidate)\<close>: every property of the replacement
  overwrites the candidate's. A static replacement has a \<^verbatim>\<open>modifier\<close> only when the
  modifier-stripped search put one on it; otherwise the candidate's stays. The properties
  of the candidate that the replacement's kind does not declare (a left-over
  \<^verbatim>\<open>property\<close>, \<^verbatim>\<open>root\<close> or \<^verbatim>\<open>value\<close>) have no meaning under the new kind in the
  \<^verbatim>\<open>Candidate\<close> type and are not represented.
\<close>

definition Object_assign :: "candidate \<Rightarrow> candidate \<Rightarrow> candidate" where
  "Object_assign c replacement =
     replacement\<lparr>modifier :=
       (case utility replacement of
          Static root \<Rightarrow> (case modifier replacement of None \<Rightarrow> modifier c | Some m \<Rightarrow> Some m)
        | Functional root v \<Rightarrow> modifier replacement
        | Arbitrary property v \<Rightarrow> modifier replacement)\<rparr>"

text \<open>
  Lines 150--163. The \<^verbatim>\<open>Map\<close> holds the object that \<^verbatim>\<open>replacementCandidate\<close> names, not
  a copy of it, so the two assignments after \<^verbatim>\<open>set\<close> also change the entry: each is
  written here as an update of the variable and of the entry.
\<close>

definition store_and_print ::
  "design_system \<Rightarrow> cache \<Rightarrow> string \<Rightarrow> candidate \<Rightarrow> candidate \<Rightarrow> string \<times> cache" where
  "store_and_print ds cache targetCandidateString c accepted =
     (let replacementCandidate = accepted;
          cache1 = cache(targetCandidateString \<mapsto> replacementCandidate);
          replacementCandidate1 = replacementCandidate\<lparr>variants := variants c\<rparr>;
          cache2 = cache1(targetCandidateString \<mapsto> replacementCandidate1);
          replacementCandidate2 = replacementCandidate1\<lparr>important := important c\<rparr>;
          cache3 = cache2(targetCandidateString \<mapsto> replacementCandidate2);
          candidate' = Object_assign c replacementCandidate2
      in (ds_printCandidate ds candidate', cache3))"

text \<open>
  One run of the loop of lines 77--165, up to the \<^verbatim>\<open>return\<close> that ends it. The four
  \<^verbatim>\<open>return\<close> statements are the recursive call of line 106 (\<open>Restart\<close>), the cache hit of
  line 130, the migration of line 163 and the last line, 167; an exception leaves the
  function as \<open>Raise\<close>.
\<close>

datatype outcome =
    Restart string
  | CacheHit string
  | Migrated string cache
  | Unchanged
  | Raise error

fun migrate_candidates ::
  "'n helpers \<Rightarrow> design_system \<Rightarrow> cache \<Rightarrow> string \<Rightarrow> candidate list \<Rightarrow> outcome" where
  "migrate_candidates h ds cache rawCandidate [] = Unchanged"
| "migrate_candidates h ds cache rawCandidate (readonlyCandidate # rest) =
     (if \<not> eligible readonlyCandidate then migrate_candidates h ds cache rawCandidate rest
      else
        (let canonicalizedCandidate = ds_printCandidate ds readonlyCandidate in
         if canonicalizedCandidate \<noteq> rawCandidate then Restart canonicalizedCandidate
         else
           (let c = readonlyCandidate;
                targetCandidate = base c;
                targetCandidateString = ds_printCandidate ds targetCandidate in
            case cache targetCandidateString of
              Some cached \<Rightarrow>
                (let target = cached\<lparr>variants := variants c, important := important c\<rparr>
                 in CacheHit (ds_printCandidate ds target))
            | None \<Rightarrow>
                (case signatures ds targetCandidateString of
                   None \<Rightarrow> migrate_candidates h ds cache rawCandidate rest
                 | Some targetSignature \<Rightarrow>
                     (case first_valid h ds targetSignature c
                             (tryReplacements h ds targetSignature targetCandidate) of
                        Inl e \<Rightarrow> Raise e
                      | Inr None \<Rightarrow> migrate_candidates h ds cache rawCandidate rest
                      | Inr (Some accepted) \<Rightarrow>
                          (case store_and_print ds cache targetCandidateString c accepted of
                             (text, cache') \<Rightarrow> Migrated text cache'))))))"

text \<open>
  The function itself. The second parameter of the source, \<^verbatim>\<open>_userConfig\<close>, is never
  read and is left out; the cache is passed in and returned. The recursion of line 106
  need not end, so the result is an option: \<open>None\<close> when the chain of nested calls has no
  end. The call then returns no text. In JavaScript the call stack is finite, so such a
  call ends with the \<^verbatim>\<open>RangeError\<close> of the host once the stack is full, at a depth the
  source does not fix; \<open>None\<close> stands for that outcome.
\<close>

partial_function (option) migrateArbitraryUtilities ::
  "'n helpers \<Rightarrow> design_system \<Rightarrow> cache \<Rightarrow> string \<Rightarrow> (error + string \<times> cache) option" where
  "migrateArbitraryUtilities h ds cache rawCandidate =
     (case migrate_candidates h ds cache rawCandidate (ds_parseCandidate ds rawCandidate) of
        Restart canonicalizedCandidate \<Rightarrow>
          migrateArbitraryUtilities h ds cache canonicalizedCandidate
      | CacheHit text \<Rightarrow> Some (Inr (text, cache))
      | Migrated text cache' \<Rightarrow> Some (Inr (text, cache'))
      | Unchanged \<Rightarrow> Some (Inr (rawCandidate, cache))
      | Raise e \<Rightarrow> Some (Inl e))"

declare migrateArbitraryUtilities.simps [code]

section \<open>Notions used to state the properties\<close>

text \<open>The replacement with the variants and the important flag of the candidate put back
  on it (lines 127--128 and 156--157).\<close>

definition reattach :: "candidate \<Rightarrow> candidate \<Rightarrow> candidate" where
  "reattach c replacement = replacement\<lparr>variants := variants c, important := important c\<rparr>"

text \<open>What a call returns when its loop ends with the given \<^verbatim>\<open>return\<close>; nothing yet for
  the recursive call.\<close>

definition result_of :: "cache \<Rightarrow> string \<Rightarrow> outcome \<Rightarrow> (error + string \<times> cache) option" where
  "result_of cache rawCandidate outcome =
     (case outcome of
        Restart canonicalizedCandidate \<Rightarrow> None
      | CacheHit text \<Rightarrow> Some (Inr (text, cache))
      | Migrated text cache' \<Rightarrow> Some (Inr (text, cache'))
      | Unchanged \<Rightarrow> Some (Inr (rawCandidate, cache))
      | Raise e \<Rightarrow> Some (Inl e))"

text \<open>The chain of recursive calls: \<open>canonicalizes h ds cache x s\<close> when the call on \<open>x\<close>
  reaches, through the recursion of line 106, a call on \<open>s\<close>.\<close>

inductive canonicalizes :: "'n helpers \<Rightarrow> design_system \<Rightarrow> cache \<Rightarrow> string \<Rightarrow> string \<Rightarrow> bool"
  for h ds cache where
  stop: "canonicalizes h ds cache s s"
| restart: "migrate_candidates h ds cache x (ds_parseCandidate ds x) = Restart y \<Longrightarrow>
     canonicalizes h ds cache y s \<Longrightarrow> canonicalizes h ds cache x s"

text \<open>
  The invariant of the cache: every entry was accepted for its key. The key has a
  signature whose bucket holds at most one class name, and the entry is, up to its
  variants and important flag, a candidate whose printed text has that signature.
\<close>

definition cache_ok :: "'n helpers \<Rightarrow> design_system \<Rightarrow> cache \<Rightarrow> bool" where
  "cache_ok h ds cache =
     (\<forall>key cached. cache key = Some cached \<longrightarrow>
        (\<exists>sig r. signatures ds key = Some sig
           \<and> length (preComputedUtilities h ds sig) \<le> 1
           \<and> signatures ds (ds_printCandidate ds r) = Some sig
           \<and> cached = reattach cached r))"

text \<open>Every node of a parsed value, the nodes below a function included, in the order of
  the walk; and what the check asks of a node: a \<^verbatim>\<open>var\<close> function has a first argument,
  the pattern of line 324 for it matches the CSS of the replacement, and that CSS has no
  text that sets the variable.\<close>

fun all_nodes :: "ast_node list \<Rightarrow> ast_node list" where
  "all_nodes [] = []"
| "all_nodes (WordNode w # rest) = WordNode w # all_nodes rest"
| "all_nodes (FunctionNode name nodes # rest) =
     FunctionNode name nodes # all_nodes nodes @ all_nodes rest"
| "all_nodes (SeparatorNode w # rest) = SeparatorNode w # all_nodes rest"

definition variable_kept :: "'n helpers \<Rightarrow> string \<Rightarrow> ast_node \<Rightarrow> bool" where
  "variable_kept h css node =
     (case node of
        FunctionNode name nodes \<Rightarrow>
          name = ''var'' \<longrightarrow>
            (case nodes of
               [] \<Rightarrow> False
             | first # others \<Rightarrow>
                 test_var_pattern h (node_value first) css = Some True
                 \<and> \<not> string_includes css (node_value first @ '':''))
      | WordNode w \<Rightarrow> True
      | SeparatorNode w \<Rightarrow> True)"

text \<open>
  The printer is idempotent on what the parser gives: a parse of the printed form of a
  parsed candidate prints to the same text.
\<close>

definition print_idempotent :: "design_system \<Rightarrow> bool" where
  "print_idempotent ds =
     (\<forall>text. \<forall>c \<in> set (ds_parseCandidate ds text).
        \<forall>d \<in> set (ds_parseCandidate ds (ds_printCandidate ds c)).
          ds_printCandidate ds d = ds_printCandidate ds c)"

text \<open>The function with the depth of the recursion bounded: \<open>None\<close> when \<open>n\<close> nested calls
  do not reach a \<^verbatim>\<open>return\<close> other than the one of line 106.\<close>

fun migrate_within ::
  "nat \<Rightarrow> 'n helpers \<Rightarrow> design_system \<Rightarrow> cache \<Rightarrow> string \<Rightarrow> (error + string \<times> cache) option" where
  "migrate_within 0 h ds cache rawCandidate = None"
| "migrate_within (Suc n) h ds cache rawCandidate =
     (case migrate_candidates h ds cache rawCandidate (ds_parseCandidate ds rawCandidate) of
        Restart canonicalizedCandidate \<Rightarrow> migrate_within n h ds cache canonicalizedCandidate
      | CacheHit text \<Rightarrow> Some (Inr (text, cache))
      | Migrated text cache' \<Rightarrow> Some (Inr (text, cache'))
      | Unchanged \<Rightarrow> Some (Inr (rawCandidate, cache))
      | Raise e \<Rightarrow> Some (Inl e))"

text \<open>
  A value on which the safety check cannot raise: every \<^verbatim>\<open>var\<close> function of its parsed
  form has an argument, and the pattern built from that argument is a regular expression.
  And an input for which this holds of every value the check is run on: the values with
  \<^verbatim>\<open>var(--\<close> of the eligible candidates parsed from the input or from a text the recursion
  of line 106 reaches from it. Nothing is asked of any other value.
\<close>

definition value_safe :: "'n helpers \<Rightarrow> string \<Rightarrow> bool" where
  "value_safe h v =
     (\<forall>node \<in> set (all_nodes (ValueParser_parse h v)).
        \<forall>nodes. node = FunctionNode ''var'' nodes \<longrightarrow>
          nodes \<noteq> [] \<and> (\<forall>css. test_var_pattern h (node_value (hd nodes)) css \<noteq> None))"

definition scanned_values_safe :: "'n helpers \<Rightarrow> design_system \<Rightarrow> cache \<Rightarrow> string \<Rightarrow> bool" where
  "scanned_values_safe h ds cache rawCandidate =
     (\<forall>s. canonicalizes h ds cache rawCandidate s \<longrightarrow>
        (\<forall>c \<in> set (ds_parseCandidate ds s). \<forall>v.
           eligible c \<and> variable_value c = Some v \<longrightarrow> value_safe h v))"

text \<open>
  A replacement the loop of lines 138--164 does not accept; and a parsed candidate from
  which the outer loop goes on to the next one: it is not eligible, or it prints to the
  input, misses the cache, and has no string signature or only rejected replacements.
\<close>

definition rejected :: "'n helpers \<Rightarrow> design_system \<Rightarrow> string \<Rightarrow> candidate \<Rightarrow> candidate \<Rightarrow> bool" where
  "rejected h ds targetSignature c r =
     (signatures ds (ds_printCandidate ds r) \<noteq> Some targetSignature
      \<or> allVariablesAreUsed h ds c r = Inr False)"

definition passed_over :: "'n helpers \<Rightarrow> design_system \<Rightarrow> cache \<Rightarrow> string \<Rightarrow> candidate \<Rightarrow> bool" where
  "passed_over h ds cache rawCandidate c =
     (\<not> eligible c
      \<or> (ds_printCandidate ds c = rawCandidate
          \<and> cache (ds_printCandidate ds (base c)) = None
          \<and> (case signatures ds (ds_printCandidate ds (base c)) of
                None \<Rightarrow> True
              | Some targetSignature \<Rightarrow>
                  \<forall>r \<in> set (tryReplacements h ds targetSignature (base c)).
                    rejected h ds targetSignature c r)))"



section \<open>Example design systems\<close>

text \<open>
  A printer in the manner of the design system's own: the variants, the utility, the
  modifier of a functional or arbitrary utility, and \<^verbatim>\<open>!\<close> for an important one.
\<close>

definition print_variant :: "variant \<Rightarrow> string" where
  "print_variant v = (case v of Variant s \<Rightarrow> s @ '':'')"

definition print_modifier :: "candidate_modifier option \<Rightarrow> string" where
  "print_modifier m =
     (case m of
        None \<Rightarrow> []
      | Some (NamedModifier v) \<Rightarrow> ''/'' @ v
      | Some (ArbitraryModifier v) \<Rightarrow> ''/['' @ v @ '']'')"

definition print_utility :: "candidate \<Rightarrow> string" where
  "print_utility c =
     (case utility c of
        Static root \<Rightarrow> root
      | Functional root None \<Rightarrow> root @ print_modifier (modifier c)
      | Functional root (Some (NamedValue v fraction)) \<Rightarrow>
          root @ ''-'' @ v @ print_modifier (modifier c)
      | Functional root (Some (ArbitraryValue dataType v)) \<Rightarrow>
          root @ ''-['' @ v @ '']'' @ print_modifier (modifier c)
      | Arbitrary property v \<Rightarrow>
          ''['' @ property @ '':'' @ v @ '']'' @ print_modifier (modifier c))"

definition print_example :: "candidate \<Rightarrow> string" where
  "print_example c =
     concat (map print_variant (variants c)) @ print_utility c
       @ (if important c then ''!'' else [])"

text \<open>A design system given by tables: the parses of each text, the class list, the
  signatures, the functional roots and the CSS of each class.\<close>

definition entries :: "(string \<times> 'a list) list \<Rightarrow> string \<Rightarrow> 'a list" where
  "entries table key = (case map_of table key of None \<Rightarrow> [] | Some xs \<Rightarrow> xs)"

definition example_system ::
  "(string \<times> candidate list) list \<Rightarrow> (string \<times> string list) list \<Rightarrow> (string \<times> string) list
     \<Rightarrow> string list \<Rightarrow> (string \<times> string) list \<Rightarrow> design_system" where
  "example_system parses classes sigs roots css =
     \<lparr>ds_parseCandidate = entries parses,
      ds_printCandidate = print_example,
      ds_candidatesToCss = map (map_of css),
      ds_resolveThemeValue = (\<lambda>key. None),
      ds_getClassList = classes,
      ds_functional_keys = roots,
      ds_theme_prefix = None,
      signatures = map_of sigs\<rparr>"

definition example_helpers :: "(string \<times> ast_node list) list \<Rightarrow> nat helpers" where
  "example_helpers values =
     \<lparr>isValidSpacingMultiplier = (\<lambda>m. False),
      dimensions = (\<lambda>input. None),
      divide_number = (div),
      number_toString = (\<lambda>n. []),
      printModifier = print_modifier,
      ValueParser_parse = entries values,
      RegExp_test = (\<lambda>pattern text. None)\<rparr>"

text \<open>The arbitrary property \<^verbatim>\<open>[display:flex]\<close> and the static utilities \<^verbatim>\<open>flex\<close> and
  \<^verbatim>\<open>d-flex\<close>, which all compute \<^verbatim>\<open>display: flex\<close>; the class list is left open.\<close>

definition display_flex :: candidate where
  "display_flex =
     \<lparr>utility = Arbitrary ''display'' ''flex'', modifier = None, variants = [], important = False\<rparr>"

definition flex :: candidate where
  "flex = \<lparr>utility = Static ''flex'', modifier = None, variants = [], important = False\<rparr>"

definition flex_system :: "(string \<times> string list) list \<Rightarrow> design_system" where
  "flex_system classes =
     example_system
       [(''[display:_flex_]'', [display_flex]),
        (''[display:flex]'', [display_flex]),
        (''hover:[display:flex]!'',
           [display_flex\<lparr>variants := [Variant ''hover''], important := True\<rparr>]),
        (''flex'', [flex]),
        (''d-flex'', [flex\<lparr>utility := Static ''d-flex''\<rparr>])]
       classes
       [(''[display:flex]'', ''display: flex''), (''flex'', ''display: flex''),
        (''d-flex'', ''display: flex'')]
       []
       []"

text \<open>The same property under the variant \<^verbatim>\<open>hover\<close> and marked important.\<close>

definition hover_flex :: candidate where
  "hover_flex = display_flex\<lparr>variants := [Variant ''hover''], important := True\<rparr>"

text \<open>
  A design system whose parser answers every text with the static utility of that name,
  so that the candidates of a search show the texts that were parsed; and the candidate
  \<^verbatim>\<open>bg-[#f00]/50\<close>.
\<close>

definition echo_system :: design_system where
  "echo_system =
     \<lparr>ds_parseCandidate =
        (\<lambda>input. [\<lparr>utility = Static input, modifier = None, variants = [], important = False\<rparr>]),
      ds_printCandidate = print_example,
      ds_candidatesToCss = (\<lambda>classes. []),
      ds_resolveThemeValue = (\<lambda>key. None),
      ds_getClassList = [],
      ds_functional_keys = [''bg''],
      ds_theme_prefix = None,
      signatures = (\<lambda>text. None)\<rparr>"

definition red_half :: candidate where
  "red_half =
     \<lparr>utility = Functional ''bg'' (Some (ArbitraryValue None ''#f00'')),
      modifier = Some (NamedModifier ''50''), variants = [], important = False\<rparr>"

text \<open>An arbitrary property that refers to a variable, and a static utility whose CSS
  refers to the same variable.\<close>

definition brand :: candidate where
  "brand =
     \<lparr>utility = Arbitrary ''color'' ''var(--brand)'', modifier = None, variants = [],
      important = False\<rparr>"

definition text_brand :: candidate where
  "text_brand =
     \<lparr>utility = Static ''text-brand'', modifier = None, variants = [], important = False\<rparr>"

definition brand_system :: design_system where
  "brand_system =
     example_system
       [(''[color:var(--brand)]'', [brand]), (''text-brand'', [text_brand])]
       [(''text-brand'', [])]
       [(''[color:var(--brand)]'', ''color: var(--brand)''),
        (''text-brand'', ''color: var(--brand)'')]
       []
       [(''text-brand'', ''.text-brand { color: var(--brand); }'')]"

definition brand_helpers :: "nat helpers" where
  "brand_helpers = example_helpers [(''var(--brand)'', [FunctionNode ''var'' [WordNode ''--brand'']])]"

text \<open>The same helpers with a value parser that also reads \<^verbatim>\<open>var()\<close>, as a \<^verbatim>\<open>var\<close>
  function without arguments.\<close>

definition mixed_helpers :: "nat helpers" where
  "mixed_helpers =
     example_helpers
       [(''var(--brand)'', [FunctionNode ''var'' [WordNode ''--brand'']]),
        (''var()'', [FunctionNode ''var'' []])]"

text \<open>The same property with a fallback in the reference, \<^verbatim>\<open>[color:var(--brand,#000)]\<close>,
  and with the function name in capitals, \<^verbatim>\<open>[color:VAR(--brand)]\<close>; and a value parser
  that reads the first as the real one does: a \<^verbatim>\<open>var\<close> function over the variable, the
  separator and the fallback.\<close>

definition brand_fallback :: candidate where
  "brand_fallback =
     \<lparr>utility = Arbitrary ''color'' ''var(--brand,#000)'', modifier = None, variants = [],
      important = False\<rparr>"

definition upper_brand :: candidate where
  "upper_brand =
     \<lparr>utility = Arbitrary ''color'' ''VAR(--brand)'', modifier = None, variants = [],
      important = False\<rparr>"

definition fallback_helpers :: "nat helpers" where
  "fallback_helpers =
     example_helpers
       [(''var(--brand,#000)'',
         [FunctionNode ''var'' [WordNode ''--brand'', SeparatorNode '','', WordNode ''#000'']])]"

text \<open>A parser that reads \<^verbatim>\<open>[x:a]\<close> as the property with value \<^verbatim>\<open>b\<close> and the other way
  round, so that printing what was parsed never gives the text back.\<close>

definition swap_system :: design_system where
  "swap_system =
     example_system
       [(''[x:a]'', [\<lparr>utility = Arbitrary ''x'' ''b'', modifier = None, variants = [],
                       important = False\<rparr>]),
        (''[x:b]'', [\<lparr>utility = Arbitrary ''x'' ''a'', modifier = None, variants = [],
                       important = False\<rparr>])]
       [] [] [] []"

text \<open>An arbitrary property whose value has a \<^verbatim>\<open>var()\<close> without arguments after a proper
  reference, and a static utility with the same CSS.\<close>

definition margin_x :: candidate where
  "margin_x =
     \<lparr>utility = Arbitrary ''margin'' ''var(--x) var()'', modifier = None, variants = [],
      important = False\<rparr>"

definition m_x :: candidate where
  "m_x = \<lparr>utility = Static ''m-x'', modifier = None, variants = [], important = False\<rparr>"

definition margin_system :: design_system where
  "margin_system =
     example_system
       [(''[margin:var(--x) var()]'', [margin_x]), (''m-x'', [m_x])]
       [(''m-x'', [])]
       [(''[margin:var(--x) var()]'', ''margin: var(--x) var()''),
        (''m-x'', ''margin: var(--x) var()'')]
       []
       [(''m-x'', ''.m-x { margin: var(--x) var(); }'')]"

definition margin_helpers :: "nat helpers" where
  "margin_helpers =
     example_helpers
       [(''var(--x) var()'',
         [FunctionNode ''var'' [WordNode ''--x''], SeparatorNode '' '', FunctionNode ''var'' []])]"

text \<open>A parser that gives two parses for \<^verbatim>\<open>[display:flex]\<close>: a static utility of that name
  first, the arbitrary property second.\<close>

definition named_after_text :: candidate where
  "named_after_text =
     \<lparr>utility = Static ''[display:flex]'', modifier = None, variants = [], important = False\<rparr>"

definition two_parse_system :: design_system where
  "two_parse_system =
     example_system
       [(''[display:flex]'', [named_after_text, display_flex]), (''flex'', [flex])]
       [(''flex'', [])]
       [(''[display:flex]'', ''display: flex''), (''flex'', ''display: flex'')]
       []
       []"







section \<open>Auxiliary facts\<close>


lemmas example_defs = example_system_def example_helpers_def entries_def print_example_def
  print_utility_def print_variant_def print_modifier_def

lemma first_valid_Some:
  "first_valid h ds sig c rs = Inr (Some r) \<Longrightarrow>
     r \<in> set rs \<and> signatures ds (ds_printCandidate ds r) = Some sig
       \<and> allVariablesAreUsed h ds c r = Inr True"
  by (induction rs) (auto simp: Let_def split: if_splits sum.splits)

lemma first_valid_Inl:
  "first_valid h ds sig c rs = Inl e \<Longrightarrow> \<exists>r \<in> set rs. allVariablesAreUsed h ds c r = Inl e"
  by (induction rs) (auto simp: Let_def split: if_splits sum.splits)

lemma first_valid_None:
  "(\<forall>r \<in> set rs. signatures ds (ds_printCandidate ds r) \<noteq> Some sig
       \<or> allVariablesAreUsed h ds c r = Inr False) \<Longrightarrow>
   first_valid h ds sig c rs = Inr None"
  by (induction rs) (auto simp: Let_def)

lemma tryReplacements_ambiguous:
  "1 < length (preComputedUtilities h ds sig) \<Longrightarrow> tryReplacements h ds sig c = []"
  by (simp add: Let_def)

lemma store_and_print_eq:
  "store_and_print ds cache key c r =
     (ds_printCandidate ds (Object_assign c (reattach c r)), cache(key \<mapsto> reattach c r))"
  by (simp add: store_and_print_def reattach_def Let_def)

lemma migrate_candidates_Restart:
  "migrate_candidates h ds cache raw cs = Restart s \<Longrightarrow>
     \<exists>c \<in> set cs. eligible c \<and> s = ds_printCandidate ds c \<and> s \<noteq> raw"
  by (induction cs) (auto simp: Let_def split: if_splits option.splits sum.splits prod.splits)

lemma migrate_candidates_CacheHit:
  "migrate_candidates h ds cache raw cs = CacheHit text \<Longrightarrow>
     \<exists>c \<in> set cs. \<exists>cached. eligible c \<and> ds_printCandidate ds c = raw
        \<and> cache (ds_printCandidate ds (base c)) = Some cached
        \<and> text = ds_printCandidate ds (reattach c cached)"
  by (induction cs) (auto simp: Let_def reattach_def split: if_splits option.splits sum.splits prod.splits)

lemma migrate_candidates_Migrated:
  "migrate_candidates h ds cache raw cs = Migrated text cache' \<Longrightarrow>
     \<exists>c \<in> set cs. \<exists>sig r. eligible c \<and> ds_printCandidate ds c = raw
        \<and> cache (ds_printCandidate ds (base c)) = None
        \<and> signatures ds (ds_printCandidate ds (base c)) = Some sig
        \<and> first_valid h ds sig c (tryReplacements h ds sig (base c)) = Inr (Some r)
        \<and> text = ds_printCandidate ds (Object_assign c (reattach c r))
        \<and> cache' = cache(ds_printCandidate ds (base c) \<mapsto> reattach c r)"
  by (induction cs)
     (auto simp: Let_def store_and_print_eq simp del: tryReplacements.simps
           split: if_splits option.splits sum.splits prod.splits)

lemma migrate_candidates_Raise:
  "migrate_candidates h ds cache raw cs = Raise e \<Longrightarrow>
     \<exists>c \<in> set cs. \<exists>r. eligible c \<and> allVariablesAreUsed h ds c r = Inl e"
  by (induction cs)
     (auto simp: Let_def store_and_print_eq simp del: tryReplacements.simps
           split: if_splits option.splits sum.splits prod.splits dest!: first_valid_Inl)

lemma migrate_step:
  "migrateArbitraryUtilities h ds cache x =
     (case migrate_candidates h ds cache x (ds_parseCandidate ds x) of
        Restart y \<Rightarrow> migrateArbitraryUtilities h ds cache y
      | outcome \<Rightarrow> result_of cache x outcome)"
  by (subst migrateArbitraryUtilities.simps) (simp add: result_of_def split: outcome.splits)

lemma migrate_restart:
  "canonicalizes h ds cache x s \<Longrightarrow>
     migrateArbitraryUtilities h ds cache x = migrateArbitraryUtilities h ds cache s"
  by (induction rule: canonicalizes.induct) (simp_all add: migrate_step [of _ _ _ x for x])

lemma migrate_final:
  assumes "migrateArbitraryUtilities h ds cache x = Some res"
  shows "\<exists>s. canonicalizes h ds cache x s
       \<and> result_of cache s (migrate_candidates h ds cache s (ds_parseCandidate ds s)) = Some res"
  using assms
proof (induction rule: migrateArbitraryUtilities.raw_induct [rotated 1, consumes 1, case_names step])
  case (step f h ds cache x res)
  show ?case
  proof (cases "migrate_candidates h ds cache x (ds_parseCandidate ds x)")
    case (Restart y)
    with step have "f h ds cache y = Some res"
      by simp
    with step(1) obtain s where "canonicalizes h ds cache y s"
      "result_of cache s (migrate_candidates h ds cache s (ds_parseCandidate ds s)) = Some res"
      by blast
    with Restart show ?thesis by (blast intro: canonicalizes.restart)
  qed (use step in \<open>auto simp: result_of_def intro: canonicalizes.stop\<close>)
qed

lemma cache_ok_empty: "cache_ok h ds Map.empty"
  by (simp add: cache_ok_def)

lemma reattach_reattach: "reattach c (reattach d r) = reattach c r"
  by (simp add: reattach_def)

lemma cache_ok_store:
  assumes ok: "cache_ok h ds cache"
    and sig: "signatures ds key = Some sig"
    and valid: "first_valid h ds sig c (tryReplacements h ds sig t) = Inr (Some r)"
  shows "cache_ok h ds (cache(key \<mapsto> reattach c r))"
proof -
  from valid have r: "r \<in> set (tryReplacements h ds sig t)"
    "signatures ds (ds_printCandidate ds r) = Some sig"
    by (auto dest: first_valid_Some)
  have "\<not> 1 < length (preComputedUtilities h ds sig)"
    using r(1) tryReplacements_ambiguous [of h ds sig t] by auto
  then have "length (preComputedUtilities h ds sig) \<le> 1" by simp
  moreover have "reattach c r = reattach (reattach c r) r"
    by (simp add: reattach_def)
  ultimately show ?thesis
    using ok sig r(2) unfolding cache_ok_def by (auto simp del: tryReplacements.simps)
qed

subsection \<open>The example with \<^verbatim>\<open>flex\<close>\<close>

lemma flex_bucket:
  "preComputedUtilities (example_helpers []) (flex_system [(''flex'', [])]) ''display: flex'' = [''flex'']"
  by (simp add: preComputedUtilities_def add_class_def push_def flex_system_def example_defs)

lemma flex_replacements:
  "tryReplacements (example_helpers []) (flex_system [(''flex'', [])]) ''display: flex'' (base display_flex)
     = [flex]"
  by (subst tryReplacements.simps)
     (simp add: flex_bucket, simp add: parseCandidate_def flex_system_def example_defs)

lemma flex_first:
  "migrate_candidates (example_helpers []) (flex_system [(''flex'', [])]) Map.empty ''[display:_flex_]''
     (ds_parseCandidate (flex_system [(''flex'', [])]) ''[display:_flex_]'')
   = Restart ''[display:flex]''"
  by (simp add: eligible_def flex_system_def example_defs display_flex_def)

lemma flex_second:
  "migrate_candidates (example_helpers []) (flex_system [(''flex'', [])]) Map.empty ''[display:flex]''
     (ds_parseCandidate (flex_system [(''flex'', [])]) ''[display:flex]'')
   = Migrated ''flex'' [''[display:flex]'' \<mapsto> flex]"
proof -
  have parse: "ds_parseCandidate (flex_system [(''flex'', [])]) ''[display:flex]'' = [display_flex]"
    by (simp add: flex_system_def example_defs)
  have print: "ds_printCandidate (flex_system [(''flex'', [])]) = print_example"
    by (simp add: flex_system_def example_defs)
  have sigs: "signatures (flex_system [(''flex'', [])]) ''[display:flex]'' = Some ''display: flex''"
    "signatures (flex_system [(''flex'', [])]) ''flex'' = Some ''display: flex''"
    by (simp_all add: flex_system_def example_defs)
  have p1: "print_example display_flex = ''[display:flex]''" "print_example (base display_flex) = ''[display:flex]''"
     "print_example flex = ''flex''"
    by (simp_all add: example_defs display_flex_def flex_def base_def)
  have el: "eligible display_flex" by (simp add: eligible_def display_flex_def)
  have safe: "allVariablesAreUsed (example_helpers []) (flex_system [(''flex'', [])]) display_flex flex = Inr True"
    by (simp add: allVariablesAreUsed_def variable_value_def display_flex_def string_includes_def sublist_code)
  have re: "reattach display_flex flex = flex" "Object_assign display_flex flex = flex"
    by (simp_all add: reattach_def Object_assign_def display_flex_def flex_def)
  show ?thesis
    unfolding parse
    by (simp add: el print p1 sigs flex_replacements safe store_and_print_eq re del: tryReplacements.simps)
qed

lemma flex_run:
  "migrateArbitraryUtilities (example_helpers []) (flex_system [(''flex'', [])]) Map.empty ''[display:_flex_]''
     = Some (Inr (''flex'', [''[display:flex]'' \<mapsto> flex]))"
  by (simp add: migrate_step [of _ _ _ "''[display:_flex_]''"] migrate_step [of _ _ _ "''[display:flex]''"]
        flex_first flex_second result_of_def)

lemma cache_ok_miss:
  assumes "cache_ok h ds cache" "signatures ds key = Some sig"
    "2 \<le> length (preComputedUtilities h ds sig)"
  shows "cache key = None"
proof (cases "cache key")
  case (Some cached)
  with assms(1) obtain sig' where "signatures ds key = Some sig'"
    "length (preComputedUtilities h ds sig') \<le> 1"
    unfolding cache_ok_def by blast
  with assms(2,3) show ?thesis by simp
qed simp

lemma flex_ambiguous_bucket:
  "preComputedUtilities (example_helpers []) (flex_system [(''flex'', []), (''d-flex'', [])])
     ''display: flex'' = [''flex'', ''d-flex'']"
  by (simp add: preComputedUtilities_def add_class_def push_def flex_system_def example_defs)

lemma flex_system_simps:
  "ds_printCandidate (flex_system classes) = print_example"
  "ds_parseCandidate (flex_system classes) ''[display:flex]'' = [display_flex]"
  "ds_parseCandidate (flex_system classes) ''hover:[display:flex]!'' = [hover_flex]"
  "signatures (flex_system classes) ''[display:flex]'' = Some ''display: flex''"
  "signatures (flex_system classes) ''flex'' = Some ''display: flex''"
  by (simp_all add: flex_system_def example_defs hover_flex_def)

lemma flex_prints:
  "print_example display_flex = ''[display:flex]''"
  "print_example (base display_flex) = ''[display:flex]''"
  "print_example hover_flex = ''hover:[display:flex]!''"
  "print_example (base hover_flex) = ''[display:flex]''"
  "print_example flex = ''flex''"
  "print_example (reattach hover_flex flex) = ''hover:flex!''"
  by (simp_all add: example_defs display_flex_def flex_def base_def hover_flex_def reattach_def)

lemma flex_eligible: "eligible display_flex" "eligible hover_flex"
  by (simp_all add: eligible_def display_flex_def hover_flex_def)

lemma flex_underscore_parse:
  "ds_parseCandidate (flex_system classes) ''[display:_flex_]'' = [display_flex]"
  by (simp add: flex_system_def example_defs)

lemma flex_ambiguous_run:
  "migrateArbitraryUtilities (example_helpers []) (flex_system [(''flex'', []), (''d-flex'', [])])
        Map.empty ''[display:_flex_]'' = Some (Inr (''[display:flex]'', Map.empty))"
proof -
  let ?ds = "flex_system [(''flex'', []), (''d-flex'', [])]"
  have none: "tryReplacements (example_helpers []) ?ds ''display: flex'' t = []" for t
    by (rule tryReplacements_ambiguous) (simp add: flex_ambiguous_bucket)
  have first: "migrate_candidates (example_helpers []) ?ds Map.empty ''[display:_flex_]''
      (ds_parseCandidate ?ds ''[display:_flex_]'') = Restart ''[display:flex]''"
    by (simp add: flex_underscore_parse flex_eligible flex_system_simps flex_prints
          del: tryReplacements.simps)
  have second: "migrate_candidates (example_helpers []) ?ds Map.empty ''[display:flex]''
      (ds_parseCandidate ?ds ''[display:flex]'') = Unchanged"
    by (simp add: flex_eligible flex_system_simps flex_prints none del: tryReplacements.simps)
  show ?thesis
    by (simp add: migrate_step [of _ _ _ "''[display:_flex_]''"]
          migrate_step [of _ _ _ "''[display:flex]''"] first second result_of_def)
qed

lemma flex_hover_run:
  "migrate_candidates (example_helpers []) (flex_system [(''flex'', [])]) Map.empty
     ''hover:[display:flex]!'' [hover_flex]
   = Migrated ''hover:flex!'' [''[display:flex]'' \<mapsto> reattach hover_flex flex]"
proof -
  let ?ds = "flex_system [(''flex'', [])]"
  have same: "base hover_flex = base display_flex"
    by (simp add: base_def hover_flex_def)
  have safe: "allVariablesAreUsed (example_helpers []) ?ds hover_flex flex = Inr True"
    by (simp add: allVariablesAreUsed_def variable_value_def display_flex_def hover_flex_def
          string_includes_def sublist_code)
  have assign: "Object_assign hover_flex (reattach hover_flex flex) = reattach hover_flex flex"
    by (simp add: reattach_def Object_assign_def display_flex_def hover_flex_def flex_def)
  show ?thesis
    by (simp add: flex_eligible flex_system_simps flex_prints flex_replacements [folded same] safe
          store_and_print_eq assign del: tryReplacements.simps)
qed

subsection \<open>The walk of the safety check\<close>

lemma check_variable_state:
  "check_variable h css s node = Inr (s', a) \<Longrightarrow>
     a \<noteq> Skip \<and> (a = Stop \<longrightarrow> \<not> s') \<and> (a = Continue \<longrightarrow> s' = s \<and> variable_kept h css node)"
  by (auto simp: check_variable_def variable_kept_def Let_def
        split: ast_node.splits list.splits option.splits if_splits)

lemma walk_check_variable:
  "walk (check_variable h css) s nodes = Inr (s', a) \<Longrightarrow>
     (a = Stop \<longrightarrow> \<not> s') \<and>
     (a \<noteq> Stop \<longrightarrow> s' = s \<and> (\<forall>node \<in> set (all_nodes nodes). variable_kept h css node))"
proof (induction "check_variable h css" s nodes arbitrary: s' a rule: walk.induct)
  case (1 s)
  then show ?case by simp
next
  case (2 s node rest)
  from "2.prems" obtain s1 a1 where visit: "check_variable h css s node = Inr (s1, a1)"
    by (auto split: sum.splits)
  note st = check_variable_state [OF visit]
  show ?case
  proof (cases a1)
    case Stop
    with visit "2.prems" st show ?thesis by simp
  next
    case Skip
    with st show ?thesis by simp
  next
    case Continue
    show ?thesis
    proof (cases node)
      case (WordNode w)
      with Continue visit "2.prems" have "walk (check_variable h css) s1 rest = Inr (s', a)"
        by simp
      from "2.hyps"(1) [OF visit refl Continue WordNode this] st Continue WordNode
      show ?thesis by auto
    next
      case (SeparatorNode w)
      with Continue visit "2.prems" have "walk (check_variable h css) s1 rest = Inr (s', a)"
        by simp
      from "2.hyps"(5) [OF visit refl Continue SeparatorNode this] st Continue SeparatorNode
      show ?thesis by auto
    next
      case (FunctionNode name nodes)
      from "2.prems" visit Continue FunctionNode obtain s2 a2 where
        inner: "walk (check_variable h css) s1 nodes = Inr (s2, a2)"
        by (auto split: sum.splits)
      note ih1 = "2.hyps"(2) [OF visit refl Continue FunctionNode inner]
      show ?thesis
      proof (cases a2)
        case Stop
        with inner visit Continue FunctionNode "2.prems" ih1 show ?thesis by simp
      next
        case Skip
        with inner visit Continue FunctionNode "2.prems"
        have "walk (check_variable h css) s2 rest = Inr (s', a)" by simp
        from "2.hyps"(4) [OF visit refl Continue FunctionNode inner refl Skip this] ih1 st
          Continue FunctionNode Skip
        show ?thesis by auto
      next
        case Continue2: Continue
        with inner visit Continue FunctionNode "2.prems"
        have "walk (check_variable h css) s2 rest = Inr (s', a)" by simp
        from "2.hyps"(3) [OF visit refl Continue FunctionNode inner refl Continue2 this] ih1 st
          Continue FunctionNode Continue2
        show ?thesis by auto
      qed
    qed
  qed
qed

lemma check_variable_kept:
  "variable_kept h css node \<Longrightarrow> check_variable h css s node = Inr (s, Continue)"
  by (auto simp: check_variable_def variable_kept_def Let_def
        split: ast_node.splits list.splits option.splits)

lemma walk_all_kept:
  assumes "\<forall>node \<in> set (all_nodes nodes). variable_kept h css node"
  shows "walk (check_variable h css) s nodes = Inr (s, Continue)"
  using assms
proof (induction "check_variable h css" s nodes rule: walk.induct)
  case (1 s)
  then show ?case by simp
next
  case (2 s node rest)
  have kept: "variable_kept h css node"
    using "2.prems" by (cases node) auto
  then have v: "check_variable h css s node = Inr (s, Continue)"
    by (rule check_variable_kept)
  have rest: "\<forall>node \<in> set (all_nodes rest). variable_kept h css node"
    using "2.prems" by (cases node) auto
  show ?case
  proof (cases node)
    case (WordNode w)
    with v "2.hyps"(1) [OF v refl refl WordNode rest] show ?thesis by simp
  next
    case (SeparatorNode w)
    with v "2.hyps"(5) [OF v refl refl SeparatorNode rest] show ?thesis by simp
  next
    case (FunctionNode name args)
    have inner: "\<forall>node \<in> set (all_nodes args). variable_kept h css node"
      using "2.prems" FunctionNode by auto
    have w: "walk (check_variable h css) s args = Inr (s, Continue)"
      by (rule "2.hyps"(2) [OF v refl refl FunctionNode inner])
    with v FunctionNode "2.hyps"(3) [OF v refl refl FunctionNode w refl refl rest]
    show ?thesis by simp
  qed
qed

lemma accepted_iff_kept:
  assumes "variable_value c = Some v"
  shows "allVariablesAreUsed h ds c replacement = Inr True \<longleftrightarrow>
     (\<forall>node \<in> set (all_nodes (ValueParser_parse h v)).
        variable_kept h (replacementAsCss_of ds replacement) node)"
proof
  assume "allVariablesAreUsed h ds c replacement = Inr True"
  with assms obtain a where
    "walk (check_variable h (replacementAsCss_of ds replacement)) True (ValueParser_parse h v)
       = Inr (True, a)"
    by (auto simp: allVariablesAreUsed_def split: sum.splits)
  from walk_check_variable [OF this]
  show "\<forall>node \<in> set (all_nodes (ValueParser_parse h v)).
        variable_kept h (replacementAsCss_of ds replacement) node"
    by auto
next
  assume "\<forall>node \<in> set (all_nodes (ValueParser_parse h v)).
        variable_kept h (replacementAsCss_of ds replacement) node"
  from walk_all_kept [OF this, of True] assms
  show "allVariablesAreUsed h ds c replacement = Inr True"
    by (simp add: allVariablesAreUsed_def)
qed

lemma brand_css:
  "replacementAsCss_of brand_system text_brand = ''.text-brand { color: var(--brand); }''"
  by (simp add: replacementAsCss_of_def brand_system_def text_brand_def example_defs text_of_def)

lemma brand_literal: "set ''--brand'' \<inter> regexp_syntax = {}"
  by (simp add: regexp_syntax_def)

lemma brand_safe: "allVariablesAreUsed brand_helpers brand_system brand text_brand = Inr True"
proof -
  have v: "variable_value brand = Some ''var(--brand)''"
    by (simp add: variable_value_def brand_def string_includes_def sublist_Cons_right)
  have p: "ValueParser_parse brand_helpers ''var(--brand)'' = [FunctionNode ''var'' [WordNode ''--brand'']]"
    by (simp add: brand_helpers_def example_defs)
  have used: "test_var_pattern brand_helpers ''--brand'' ''.text-brand { color: var(--brand); }'' = Some True"
    using brand_literal
    by (simp add: test_var_pattern_def string_includes_def sublist_Cons_right)
  have unset: "\<not> string_includes ''.text-brand { color: var(--brand); }'' (''--brand'' @ '':'')"
    by (simp add: string_includes_def sublist_Cons_right)
  show ?thesis
    using unset
    by (simp add: allVariablesAreUsed_def v p brand_css check_variable_def node_value_def used)
qed

lemma fallback_facts:
  "variable_value brand_fallback = Some ''var(--brand,#000)''"
  "ValueParser_parse fallback_helpers ''var(--brand,#000)''
     = [FunctionNode ''var'' [WordNode ''--brand'', SeparatorNode '','', WordNode ''#000'']]"
  "variable_value upper_brand = None"
  by (simp_all add: variable_value_def brand_fallback_def upper_brand_def fallback_helpers_def
        example_defs string_includes_def sublist_Cons_right)

lemma fallback_accepted:
  "allVariablesAreUsed fallback_helpers brand_system brand_fallback text_brand = Inr True"
proof -
  have used: "test_var_pattern fallback_helpers ''--brand'' ''.text-brand { color: var(--brand); }''
      = Some True"
    using brand_literal
    by (simp add: test_var_pattern_def string_includes_def sublist_Cons_right)
  have unset: "\<not> string_includes ''.text-brand { color: var(--brand); }'' (''--brand'' @ '':'')"
    by (simp add: string_includes_def sublist_Cons_right)
  show ?thesis
    using unset
    by (simp add: allVariablesAreUsed_def fallback_facts brand_css check_variable_def
          node_value_def used)
qed

lemma flex_css: "replacementAsCss_of brand_system flex = []"
  by (simp add: replacementAsCss_of_def brand_system_def flex_def example_defs text_of_def)

subsection \<open>Bounded depth, skipped candidates, the check that cannot raise\<close>

lemma migrate_within_sound:
  "migrate_within n h ds cache x = Some res \<Longrightarrow> migrateArbitraryUtilities h ds cache x = Some res"
proof (induction n arbitrary: x)
  case 0
  then show ?case by simp
next
  case (Suc n)
  show ?case
  proof (cases "migrate_candidates h ds cache x (ds_parseCandidate ds x)")
    case (Restart y)
    with Suc.prems have "migrate_within n h ds cache y = Some res" by simp
    from Suc.IH [OF this] Restart show ?thesis
      by (simp add: migrate_step [of h ds cache x])
  qed (use Suc.prems in \<open>simp_all add: migrate_step [of h ds cache x] result_of_def\<close>)
qed

lemma no_second_restart:
  assumes "print_idempotent ds"
    and "migrate_candidates h ds cache x (ds_parseCandidate ds x) = Restart s"
  shows "migrate_candidates h ds cache s (ds_parseCandidate ds s) \<noteq> Restart s'"
proof
  assume again: "migrate_candidates h ds cache s (ds_parseCandidate ds s) = Restart s'"
  from migrate_candidates_Restart [OF assms(2)] obtain c where
    c: "c \<in> set (ds_parseCandidate ds x)" "s = ds_printCandidate ds c" by blast
  from migrate_candidates_Restart [OF again] obtain d where
    d: "d \<in> set (ds_parseCandidate ds s)" "s' = ds_printCandidate ds d" "s' \<noteq> s" by blast
  from assms(1) c d(1) have "ds_printCandidate ds d = ds_printCandidate ds c"
    unfolding print_idempotent_def by blast
  with c(2) d(2,3) show False by simp
qed

lemma two_calls:
  assumes "print_idempotent ds"
  shows "\<exists>res. migrate_within (Suc (Suc n)) h ds cache x = Some res"
proof (cases "migrate_candidates h ds cache x (ds_parseCandidate ds x)")
  case (Restart s)
  from no_second_restart [OF assms Restart]
  have "\<exists>res. migrate_within (Suc n) h ds cache s = Some res"
    by (cases "migrate_candidates h ds cache s (ds_parseCandidate ds s)") auto
  with Restart show ?thesis by simp
qed simp_all

lemma flex_idempotent: "print_idempotent (flex_system classes)"
  unfolding print_idempotent_def
  by (auto simp: flex_system_def example_defs display_flex_def flex_def split: if_splits)

lemma first_valid_None_iff:
  "first_valid h ds sig c rs = Inr None \<longleftrightarrow> (\<forall>r \<in> set rs. rejected h ds sig c r)"
  by (induction rs) (auto simp: Let_def rejected_def split: sum.splits)

lemma passed_over_skip:
  assumes "passed_over h ds cache rawCandidate c"
  shows "migrate_candidates h ds cache rawCandidate (c # rest)
       = migrate_candidates h ds cache rawCandidate rest"
proof (cases "eligible c")
  case False
  then show ?thesis by simp
next
  case True
  with assms have p: "ds_printCandidate ds c = rawCandidate"
      "cache (ds_printCandidate ds (base c)) = None"
    and s: "case signatures ds (ds_printCandidate ds (base c)) of
              None \<Rightarrow> True
            | Some targetSignature \<Rightarrow>
                \<forall>r \<in> set (tryReplacements h ds targetSignature (base c)).
                  rejected h ds targetSignature c r"
    by (auto simp: passed_over_def)
  show ?thesis
  proof (cases "signatures ds (ds_printCandidate ds (base c))")
    case None
    with True p show ?thesis by (simp add: Let_def del: tryReplacements.simps)
  next
    case (Some sig)
    with s have "\<forall>r \<in> set (tryReplacements h ds sig (base c)). rejected h ds sig c r"
      by simp
    then have "first_valid h ds sig c (tryReplacements h ds sig (base c)) = Inr None"
      by (simp only: first_valid_None_iff)
    with True p Some show ?thesis by (simp add: Let_def del: tryReplacements.simps)
  qed
qed

lemma passed_over_all:
  "\<forall>c \<in> set skipped. passed_over h ds cache rawCandidate c \<Longrightarrow>
     migrate_candidates h ds cache rawCandidate (skipped @ rest)
       = migrate_candidates h ds cache rawCandidate rest"
  by (induction skipped) (simp_all add: passed_over_skip del: migrate_candidates.simps)

lemma not_passed_over:
  assumes "\<not> passed_over h ds cache rawCandidate c"
  shows "migrate_candidates h ds cache rawCandidate (c # rest)
           = migrate_candidates h ds cache rawCandidate [c]
         \<and> migrate_candidates h ds cache rawCandidate [c] \<noteq> Unchanged"
proof -
  have el: "eligible c" using assms by (auto simp: passed_over_def)
  show ?thesis
  proof (cases "ds_printCandidate ds c = rawCandidate")
    case False
    with el show ?thesis by (simp add: Let_def del: tryReplacements.simps)
  next
    case True
    show ?thesis
    proof (cases "cache (ds_printCandidate ds (base c))")
      case (Some cached)
      with el True show ?thesis by (simp add: Let_def del: tryReplacements.simps)
    next
      case None
      with assms el True obtain sig where
        sig: "signatures ds (ds_printCandidate ds (base c)) = Some sig"
        and some: "\<not> (\<forall>r \<in> set (tryReplacements h ds sig (base c)). rejected h ds sig c r)"
        by (auto simp: passed_over_def simp del: tryReplacements.simps split: option.splits)
      from some have "first_valid h ds sig c (tryReplacements h ds sig (base c)) \<noteq> Inr None"
        by (simp add: first_valid_None_iff del: tryReplacements.simps)
      with el True None sig show ?thesis
        by (auto simp: Let_def simp del: tryReplacements.simps
              split: sum.splits option.splits prod.splits)
    qed
  qed
qed

lemma walk_never_raises:
  assumes "\<forall>node \<in> set (all_nodes nodes). \<forall>args. node = FunctionNode ''var'' args \<longrightarrow>
      args \<noteq> [] \<and> test_var_pattern h (node_value (hd args)) css \<noteq> None"
  shows "\<exists>r. walk (check_variable h css) s nodes = Inr r"
  using assms
proof (induction "check_variable h css" s nodes rule: walk.induct)
  case (1 s)
  then show ?case by simp
next
  case (2 s node rest)
  have "\<exists>r. check_variable h css s node = Inr r"
    using "2.prems"
    by (cases node) (auto simp: check_variable_def Let_def split: list.splits option.splits)
  then obtain s1 a1 where v: "check_variable h css s node = Inr (s1, a1)"
    by auto
  have rest: "\<forall>node \<in> set (all_nodes rest). \<forall>args. node = FunctionNode ''var'' args \<longrightarrow>
      args \<noteq> [] \<and> test_var_pattern h (node_value (hd args)) css \<noteq> None"
    using "2.prems" by (cases node) auto
  show ?case
  proof (cases a1)
    case Stop
    with v show ?thesis by simp
  next
    case Skip
    with v "2.hyps"(6) [OF v refl Skip rest] show ?thesis by simp
  next
    case Continue
    show ?thesis
    proof (cases node)
      case (WordNode w)
      with v Continue "2.hyps"(1) [OF v refl Continue WordNode rest] show ?thesis by simp
    next
      case (SeparatorNode w)
      with v Continue "2.hyps"(5) [OF v refl Continue SeparatorNode rest] show ?thesis by simp
    next
      case (FunctionNode name args)
      have inner: "\<forall>node \<in> set (all_nodes args). \<forall>args. node = FunctionNode ''var'' args \<longrightarrow>
          args \<noteq> [] \<and> test_var_pattern h (node_value (hd args)) css \<noteq> None"
        using "2.prems" FunctionNode by auto
      from "2.hyps"(2) [OF v refl Continue FunctionNode inner]
      obtain s2 a2 where w: "walk (check_variable h css) s1 args = Inr (s2, a2)"
        by auto
      show ?thesis
      proof (cases a2)
        case Stop
        with v w Continue FunctionNode show ?thesis by simp
      next
        case Skip
        with v w Continue FunctionNode
          "2.hyps"(4) [OF v refl Continue FunctionNode w refl Skip rest]
        show ?thesis by simp
      next
        case C2: Continue
        with v w Continue FunctionNode
          "2.hyps"(3) [OF v refl Continue FunctionNode w refl C2 rest]
        show ?thesis by simp
      qed
    qed
  qed
qed

lemma value_safe_check:
  assumes "variable_value c = Some v" "value_safe h v"
  shows "allVariablesAreUsed h ds c r \<noteq> Inl e"
proof -
  from assms(2) have "\<forall>node \<in> set (all_nodes (ValueParser_parse h v)).
      \<forall>args. node = FunctionNode ''var'' args \<longrightarrow>
        args \<noteq> [] \<and> test_var_pattern h (node_value (hd args)) (replacementAsCss_of ds r) \<noteq> None"
    unfolding value_safe_def by blast
  from walk_never_raises [OF this] obtain res where
    "walk (check_variable h (replacementAsCss_of ds r)) True (ValueParser_parse h v) = Inr res"
    by blast
  with assms(1) show ?thesis by (simp add: allVariablesAreUsed_def split: prod.splits)
qed

lemma check_raises_value:
  assumes "allVariablesAreUsed h ds c r = Inl e"
  shows "\<exists>v. variable_value c = Some v \<and> \<not> value_safe h v"
proof (cases "variable_value c")
  case None
  with assms show ?thesis by (simp add: allVariablesAreUsed_def)
next
  case (Some v)
  with assms value_safe_check [OF Some, of h ds r e] show ?thesis by auto
qed

lemma brand_facts:
  "ds_parseCandidate brand_system ''[color:var(--brand)]'' = [brand]"
  "ds_printCandidate brand_system = print_example"
  "signatures brand_system ''[color:var(--brand)]'' = Some ''color: var(--brand)''"
  "signatures brand_system ''text-brand'' = Some ''color: var(--brand)''"
  "print_example brand = ''[color:var(--brand)]''"
  "print_example (base brand) = ''[color:var(--brand)]''"
  "print_example text_brand = ''text-brand''"
  "eligible brand"
  "variable_value brand = Some ''var(--brand)''"
  by (simp_all add: brand_system_def example_defs brand_def text_brand_def base_def eligible_def
        variable_value_def string_includes_def sublist_Cons_right)

lemma brand_search:
  "tryReplacements h brand_system ''color: var(--brand)'' (base brand) = [text_brand]"
proof -
  have bucket: "preComputedUtilities h brand_system ''color: var(--brand)'' = [''text-brand'']"
    by (simp add: preComputedUtilities_def add_class_def push_def brand_system_def example_defs)
  show ?thesis
    by (subst tryReplacements.simps)
       (simp add: bucket, simp add: parseCandidate_def brand_system_def example_defs)
qed

lemma mixed_safe: "allVariablesAreUsed mixed_helpers brand_system brand text_brand = Inr True"
proof -
  have p: "ValueParser_parse mixed_helpers ''var(--brand)'' = [FunctionNode ''var'' [WordNode ''--brand'']]"
    by (simp add: mixed_helpers_def example_defs)
  have used: "test_var_pattern mixed_helpers ''--brand'' ''.text-brand { color: var(--brand); }'' = Some True"
    using brand_literal
    by (simp add: test_var_pattern_def string_includes_def sublist_Cons_right)
  have unset: "\<not> string_includes ''.text-brand { color: var(--brand); }'' (''--brand'' @ '':'')"
    by (simp add: string_includes_def sublist_Cons_right)
  show ?thesis
    using unset
    by (simp add: allVariablesAreUsed_def brand_facts p brand_css check_variable_def node_value_def used)
qed

lemma mixed_run:
  "migrate_candidates mixed_helpers brand_system Map.empty ''[color:var(--brand)]''
     (ds_parseCandidate brand_system ''[color:var(--brand)]'')
   = Migrated ''text-brand'' [''[color:var(--brand)]'' \<mapsto> text_brand]"
proof -
  have re: "reattach brand text_brand = text_brand" "Object_assign brand text_brand = text_brand"
    by (simp_all add: reattach_def Object_assign_def brand_def text_brand_def)
  show ?thesis
    by (simp add: brand_facts brand_search mixed_safe store_and_print_eq re
          del: tryReplacements.simps)
qed

lemma brand_idempotent: "print_idempotent brand_system"
  unfolding print_idempotent_def
  by (auto simp: brand_system_def example_defs brand_def text_brand_def split: if_splits)

lemma mixed_scanned: "scanned_values_safe mixed_helpers brand_system Map.empty ''[color:var(--brand)]''"
proof -
  have only: "s = ''[color:var(--brand)]''"
    if "canonicalizes mixed_helpers brand_system Map.empty ''[color:var(--brand)]'' s" for s
    using that by (cases rule: canonicalizes.cases) (simp_all add: mixed_run)
  have safe: "value_safe mixed_helpers ''var(--brand)''"
    using brand_literal
    by (simp add: value_safe_def mixed_helpers_def example_defs node_value_def test_var_pattern_def)
  show ?thesis
    unfolding scanned_values_safe_def
  proof (intro allI impI ballI)
    fix s c v
    assume "canonicalizes mixed_helpers brand_system Map.empty ''[color:var(--brand)]'' s"
      and c: "c \<in> set (ds_parseCandidate brand_system s)"
      and v: "eligible c \<and> variable_value c = Some v"
    from only [OF this(1)] c have "c = brand" by (simp add: brand_facts)
    with v safe show "value_safe mixed_helpers v" by (simp add: brand_facts)
  qed
qed

lemma swap_restarts:
  "migrate_candidates h swap_system cache ''[x:a]'' (ds_parseCandidate swap_system ''[x:a]'')
     = Restart ''[x:b]''"
  "migrate_candidates h swap_system cache ''[x:b]'' (ds_parseCandidate swap_system ''[x:b]'')
     = Restart ''[x:a]''"
  by (simp_all add: swap_system_def example_defs eligible_def)

lemma swap_flex:
  "\<not> print_idempotent swap_system"
  "migrate_candidates h swap_system cache ''flex'' (ds_parseCandidate swap_system ''flex'')
     = Unchanged"
  "scanned_values_safe h swap_system cache ''flex''"
proof -
  let ?a = "\<lparr>utility = Arbitrary ''x'' ''a'', modifier = None, variants = [], important = False\<rparr>"
  let ?b = "\<lparr>utility = Arbitrary ''x'' ''b'', modifier = None, variants = [], important = False\<rparr>"
  have parse: "ds_parseCandidate swap_system ''[x:a]'' = [?b]"
    "ds_parseCandidate swap_system ''[x:b]'' = [?a]"
    "ds_parseCandidate swap_system ''flex'' = []"
    "ds_printCandidate swap_system ?a = ''[x:a]''"
    "ds_printCandidate swap_system ?b = ''[x:b]''"
    by (simp_all add: swap_system_def example_defs)
  show "\<not> print_idempotent swap_system"
  proof
    assume "print_idempotent swap_system"
    then have "\<forall>c \<in> set (ds_parseCandidate swap_system ''[x:a]'').
        \<forall>d \<in> set (ds_parseCandidate swap_system (ds_printCandidate swap_system c)).
          ds_printCandidate swap_system d = ds_printCandidate swap_system c"
      unfolding print_idempotent_def by blast
    then show False by (simp add: parse)
  qed
  show unchanged: "migrate_candidates h swap_system cache ''flex''
      (ds_parseCandidate swap_system ''flex'') = Unchanged"
    by (simp add: parse)
  have only: "s = ''flex''" if "canonicalizes h swap_system cache ''flex'' s" for s
    using that by (cases rule: canonicalizes.cases) (simp_all add: unchanged)
  show "scanned_values_safe h swap_system cache ''flex''"
    unfolding scanned_values_safe_def
  proof (intro allI impI ballI)
    fix s c v
    assume "canonicalizes h swap_system cache ''flex'' s"
      and c: "c \<in> set (ds_parseCandidate swap_system s)"
    from only [OF this(1)] c have False by (simp add: parse)
    then show "value_safe h v" ..
  qed
qed

lemma swap_within:
  "migrate_within n h swap_system cache ''[x:a]'' = None"
  "migrate_within n h swap_system cache ''[x:b]'' = None"
proof -
  have "migrate_within n h swap_system cache ''[x:a]'' = None
      \<and> migrate_within n h swap_system cache ''[x:b]'' = None"
    by (induction n) (simp_all add: swap_restarts)
  then show "migrate_within n h swap_system cache ''[x:a]'' = None"
    "migrate_within n h swap_system cache ''[x:b]'' = None"
    by simp_all
qed

lemma swap_never_returns:
  "migrateArbitraryUtilities h swap_system cache ''[x:a]'' = None"
proof -
  have loop: "migrateArbitraryUtilities h d cache x = Some res \<Longrightarrow>
      d = swap_system \<longrightarrow> x \<noteq> ''[x:a]'' \<and> x \<noteq> ''[x:b]''" for x d res
  proof (induction rule: migrateArbitraryUtilities.raw_induct [rotated 1, consumes 1, case_names step])
    case (step f h ds cache x res)
    show ?case
    proof (intro impI conjI notI)
      assume "ds = swap_system" "x = ''[x:a]''"
      with step(2) have "f h swap_system cache ''[x:b]'' = Some res"
        by (simp add: swap_restarts)
      from step(1) [OF this] show False by simp
    next
      assume "ds = swap_system" "x = ''[x:b]''"
      with step(2) have "f h swap_system cache ''[x:a]'' = Some res"
        by (simp add: swap_restarts)
      from step(1) [OF this] show False by simp
    qed
  qed
  then show ?thesis
    by (cases "migrateArbitraryUtilities h swap_system cache ''[x:a]''") auto
qed

lemma margin_raises:
  "migrateArbitraryUtilities margin_helpers margin_system Map.empty ''[margin:var(--x) var()]''
     = Some (Inl TypeError)"
proof -
  let ?css = "''.m-x { margin: var(--x) var(); }''"
  have bucket: "preComputedUtilities margin_helpers margin_system ''margin: var(--x) var()'' = [''m-x'']"
    by (simp add: preComputedUtilities_def add_class_def push_def margin_system_def example_defs)
  have repl: "tryReplacements margin_helpers margin_system ''margin: var(--x) var()'' (base margin_x) = [m_x]"
    by (subst tryReplacements.simps)
       (simp add: bucket, simp add: parseCandidate_def margin_system_def example_defs)
  have v: "variable_value margin_x = Some ''var(--x) var()''"
    by (simp add: variable_value_def margin_x_def string_includes_def sublist_Cons_right)
  have p: "ValueParser_parse margin_helpers ''var(--x) var()'' =
      [FunctionNode ''var'' [WordNode ''--x''], SeparatorNode '' '', FunctionNode ''var'' []]"
    by (simp add: margin_helpers_def example_defs)
  have css: "replacementAsCss_of margin_system m_x = ?css"
    by (simp add: replacementAsCss_of_def margin_system_def m_x_def example_defs text_of_def)
  have used: "test_var_pattern margin_helpers ''--x'' ?css = Some True"
    by (simp add: test_var_pattern_def regexp_syntax_def string_includes_def sublist_Cons_right)
  have unset: "\<not> string_includes ?css (''--x'' @ '':'')"
    by (simp add: string_includes_def sublist_Cons_right)
  have check: "allVariablesAreUsed margin_helpers margin_system margin_x m_x = Inl TypeError"
    using unset
    by (simp add: allVariablesAreUsed_def v p css check_variable_def node_value_def used)
  have facts: "ds_parseCandidate margin_system ''[margin:var(--x) var()]'' = [margin_x]"
    "ds_printCandidate margin_system = print_example"
    "signatures margin_system ''[margin:var(--x) var()]'' = Some ''margin: var(--x) var()''"
    "signatures margin_system ''m-x'' = Some ''margin: var(--x) var()''"
    by (simp_all add: margin_system_def example_defs)
  have prints: "print_example margin_x = ''[margin:var(--x) var()]''"
    "print_example (base margin_x) = ''[margin:var(--x) var()]''"
    "print_example m_x = ''m-x''"
    by (simp_all add: example_defs margin_x_def m_x_def base_def)
  have el: "eligible margin_x" by (simp add: eligible_def margin_x_def)
  show ?thesis
    by (simp add: migrate_step [of _ _ _ "''[margin:var(--x) var()]''"] facts prints el repl check
          result_of_def del: tryReplacements.simps)
qed

lemma flex_empty_search:
  "tryReplacements (example_helpers []) (flex_system []) ''display: flex'' (base display_flex) = []"
proof -
  have bucket: "preComputedUtilities (example_helpers []) (flex_system []) ''display: flex'' = []"
    by (simp add: preComputedUtilities_def flex_system_def example_defs)
  show ?thesis
    by (subst tryReplacements.simps)
       (simp add: bucket, simp add: raw_value_def base_def display_flex_def flex_system_def example_defs)
qed

lemma flex_canonical_only:
  "migrateArbitraryUtilities (example_helpers []) (flex_system []) Map.empty ''[display:_flex_]''
     = Some (Inr (''[display:flex]'', Map.empty))"
proof -
  note repl = flex_empty_search
  have first: "migrate_candidates (example_helpers []) (flex_system []) Map.empty ''[display:_flex_]''
     (ds_parseCandidate (flex_system []) ''[display:_flex_]'') = Restart ''[display:flex]''"
    by (simp add: eligible_def flex_system_def example_defs display_flex_def)
  have second: "migrate_candidates (example_helpers []) (flex_system []) Map.empty ''[display:flex]''
     (ds_parseCandidate (flex_system []) ''[display:flex]'') = Unchanged"
    by (simp add: flex_system_simps flex_prints flex_eligible repl del: tryReplacements.simps)
  show ?thesis
    by (simp add: migrate_step [of _ _ _ "''[display:_flex_]''"]
          migrate_step [of _ _ _ "''[display:flex]''"] first second result_of_def)
qed

lemma two_parse_facts:
  "ds_parseCandidate two_parse_system ''[display:flex]'' = [named_after_text, display_flex]"
  "ds_printCandidate two_parse_system = print_example"
  "signatures two_parse_system ''[display:flex]'' = Some ''display: flex''"
  "signatures two_parse_system ''flex'' = Some ''display: flex''"
  "\<not> eligible named_after_text"
  by (simp_all add: two_parse_system_def example_defs eligible_def named_after_text_def)

lemma two_parse_second:
  "migrate_candidates (example_helpers []) two_parse_system Map.empty ''[display:flex]'' [display_flex]
     = Migrated ''flex'' [''[display:flex]'' \<mapsto> flex]"
proof -
  have bucket: "preComputedUtilities (example_helpers []) two_parse_system ''display: flex'' = [''flex'']"
    by (simp add: preComputedUtilities_def add_class_def push_def two_parse_system_def example_defs)
  have repl: "tryReplacements (example_helpers []) two_parse_system ''display: flex'' (base display_flex)
     = [flex]"
    by (subst tryReplacements.simps)
       (simp add: bucket, simp add: parseCandidate_def two_parse_system_def example_defs)
  have safe: "allVariablesAreUsed (example_helpers []) two_parse_system display_flex flex = Inr True"
    by (simp add: allVariablesAreUsed_def variable_value_def display_flex_def string_includes_def
          sublist_Cons_right)
  have re: "reattach display_flex flex = flex" "Object_assign display_flex flex = flex"
    by (simp_all add: reattach_def Object_assign_def display_flex_def flex_def)
  show ?thesis
    by (simp add: flex_eligible two_parse_facts flex_prints repl safe store_and_print_eq re
          del: tryReplacements.simps)
qed

lemma flex_canonicalizes:
  "canonicalizes (example_helpers []) (flex_system classes) Map.empty ''[display:_flex_]''
     ''[display:flex]''"
proof -
  have "migrate_candidates (example_helpers []) (flex_system classes) Map.empty ''[display:_flex_]''
     (ds_parseCandidate (flex_system classes) ''[display:_flex_]'') = Restart ''[display:flex]''"
    by (simp add: eligible_def flex_system_def example_defs display_flex_def)
  then show ?thesis
    by (rule canonicalizes.restart) (rule canonicalizes.stop)
qed








subsection \<open>The second pass after a rewrite\<close>














section \<open>Signature preservation\<close>

text \<open>
  Claim C1. Whenever \<^verbatim>\<open>migrateArbitraryUtilities\<close> returns, from a cache that holds only
  accepted entries, either no rewrite took place (the text returned is the input as
  re-printed by the recursion of line 106, the loop ran to its end and the cache is as it
  was), or the text returned is the printed form of a replacement \<open>r\<close> for a parsed
  candidate \<open>c\<close>, with the variants and the important flag of \<open>c\<close>, and the signature
  of the printed \<open>r\<close> is a string equal to the signature of the printed base form of \<open>c\<close>
  (variants cleared, important false). The cache again holds only accepted entries. The
  search never accepts a candidate whose printed text has another signature or none.
\<close>

theorem rewrite_preserves_signature:
  assumes ok: "cache_ok h ds cache"
    and run: "migrateArbitraryUtilities h ds cache rawCandidate = Some (Inr (out, cache'))"
  shows "cache_ok h ds cache' \<and>
    (\<exists>s. canonicalizes h ds cache rawCandidate s \<and>
       ((out = s \<and> cache' = cache
           \<and> migrate_candidates h ds cache s (ds_parseCandidate ds s) = Unchanged)
        \<or> (\<exists>c r sig. c \<in> set (ds_parseCandidate ds s) \<and> eligible c
               \<and> ds_printCandidate ds c = s
               \<and> signatures ds (ds_printCandidate ds (base c)) = Some sig
               \<and> signatures ds (ds_printCandidate ds r) = Some sig
               \<and> (out = ds_printCandidate ds (reattach c r)
                    \<or> out = ds_printCandidate ds (Object_assign c (reattach c r))))))
    \<and> (first_valid h ds sig' c' rs = Inr (Some r') \<longrightarrow>
          signatures ds (ds_printCandidate ds r') = Some sig')"
proof -
  have accepted: "first_valid h ds sig' c' rs = Inr (Some r') \<longrightarrow>
      signatures ds (ds_printCandidate ds r') = Some sig'"
    by (auto dest: first_valid_Some)
  from migrate_final [OF run] obtain s where chain: "canonicalizes h ds cache rawCandidate s"
    and final: "result_of cache s (migrate_candidates h ds cache s (ds_parseCandidate ds s))
                  = Some (Inr (out, cache'))"
    by blast
  let ?cs = "ds_parseCandidate ds s"
  show ?thesis
  proof (cases "migrate_candidates h ds cache s ?cs")
    case (Restart y)
    with final show ?thesis by (simp add: result_of_def)
  next
    case (CacheHit t)
    with final have eq: "out = t" "cache' = cache" by (simp_all add: result_of_def)
    from migrate_candidates_CacheHit [OF CacheHit] obtain c cached where
      c: "c \<in> set ?cs" "eligible c" "ds_printCandidate ds c = s"
        "cache (ds_printCandidate ds (base c)) = Some cached"
        "t = ds_printCandidate ds (reattach c cached)"
      by blast
    from ok c(4) obtain sig r where
      r: "signatures ds (ds_printCandidate ds (base c)) = Some sig"
         "signatures ds (ds_printCandidate ds r) = Some sig" "cached = reattach cached r"
      unfolding cache_ok_def by blast
    from r(3) have "reattach c cached = reattach c r"
      by (metis reattach_reattach)
    with c r eq ok chain accepted show ?thesis by auto
  next
    case (Migrated t k)
    with final have eq: "out = t" "cache' = k" by (simp_all add: result_of_def)
    from migrate_candidates_Migrated [OF Migrated] obtain c sig r where
      c: "c \<in> set ?cs" "eligible c" "ds_printCandidate ds c = s"
        "signatures ds (ds_printCandidate ds (base c)) = Some sig"
        "first_valid h ds sig c (tryReplacements h ds sig (base c)) = Inr (Some r)"
        "t = ds_printCandidate ds (Object_assign c (reattach c r))"
        "k = cache(ds_printCandidate ds (base c) \<mapsto> reattach c r)"
      by blast
    from c(5) have "signatures ds (ds_printCandidate ds r) = Some sig"
      by (auto dest: first_valid_Some)
    moreover have "cache_ok h ds k"
      unfolding c(7) by (rule cache_ok_store [OF ok c(4) c(5)])
    ultimately show ?thesis using c eq chain accepted by auto
  next
    case Unchanged
    with final ok chain accepted show ?thesis by (auto simp: result_of_def)
  next
    case (Raise e)
    with final show ?thesis by (simp add: result_of_def)
  qed
qed

theorem rewrite_preserves_signature_witness:
  "cache_ok (example_helpers []) (flex_system [(''flex'', [])]) Map.empty
   \<and> migrateArbitraryUtilities (example_helpers []) (flex_system [(''flex'', [])]) Map.empty
        ''[display:_flex_]'' = Some (Inr (''flex'', [''[display:flex]'' \<mapsto> flex]))
   \<and> cache_ok (example_helpers []) (flex_system [(''flex'', [])]) [''[display:flex]'' \<mapsto> flex]"
  using rewrite_preserves_signature [OF cache_ok_empty flex_run] cache_ok_empty flex_run
  by blast

section \<open>The ambiguous bucket\<close>

text \<open>
  Claim C3, as amended. Let the printed base form of an eligible token have a signature
  whose bucket in the Signature Index holds two or more class names, and let the cache
  hold only accepted entries. Then the replacement search yields nothing for that
  signature, whatever the token, and the loop does nothing with the token but re-print it
  (line 106) or go on to the next parse: no entry of the catalog is put in its place.
  The input is returned as it is only when it is already the printed form of the token.
  When the token is the only parse of the input, the function returns the input with the cache
  as it was if the token prints to the input, and otherwise what the call on the printed
  form returns; when the token is also the only parse of its printed form, that printed
  form is returned.
\<close>

theorem ambiguous_bucket_no_rewrite:
  assumes ok: "cache_ok h ds cache"
    and el: "eligible c"
    and sig: "signatures ds (ds_printCandidate ds (base c)) = Some sig"
    and amb: "2 \<le> length (preComputedUtilities h ds sig)"
  shows "tryReplacements h ds sig t = []
    \<and> migrate_candidates h ds cache rawCandidate (c # rest) =
        (if ds_printCandidate ds c \<noteq> rawCandidate then Restart (ds_printCandidate ds c)
         else migrate_candidates h ds cache rawCandidate rest)
    \<and> (ds_parseCandidate ds rawCandidate = [c] \<longrightarrow>
         migrateArbitraryUtilities h ds cache rawCandidate =
           (if ds_printCandidate ds c = rawCandidate then Some (Inr (rawCandidate, cache))
            else migrateArbitraryUtilities h ds cache (ds_printCandidate ds c)))
    \<and> (ds_parseCandidate ds rawCandidate = [c]
          \<and> ds_parseCandidate ds (ds_printCandidate ds c) = [c] \<longrightarrow>
         migrateArbitraryUtilities h ds cache rawCandidate
           = Some (Inr (ds_printCandidate ds c, cache)))"
proof -
  have none: "tryReplacements h ds sig t = []" for t
    using amb by (intro tryReplacements_ambiguous) simp
  have miss: "cache (ds_printCandidate ds (base c)) = None"
    by (rule cache_ok_miss [OF ok sig amb])
  have skip: "migrate_candidates h ds cache rawCandidate (c # rest) =
        (if ds_printCandidate ds c \<noteq> rawCandidate then Restart (ds_printCandidate ds c)
         else migrate_candidates h ds cache rawCandidate rest)" for rest rawCandidate
    using el sig miss none by (simp add: Let_def del: tryReplacements.simps)
  have one: "migrateArbitraryUtilities h ds cache rawCandidate =
           (if ds_printCandidate ds c = rawCandidate then Some (Inr (rawCandidate, cache))
            else migrateArbitraryUtilities h ds cache (ds_printCandidate ds c))"
    if "ds_parseCandidate ds rawCandidate = [c]" for rawCandidate
    using that skip [of rawCandidate "[]"]
    by (simp add: migrate_step [of h ds cache rawCandidate] result_of_def)
  have two: "migrateArbitraryUtilities h ds cache rawCandidate
           = Some (Inr (ds_printCandidate ds c, cache))"
    if "ds_parseCandidate ds rawCandidate = [c]" "ds_parseCandidate ds (ds_printCandidate ds c) = [c]"
    using one [OF that(1)] one [OF that(2)] by (simp split: if_splits)
  from none skip one two show ?thesis by blast
qed

theorem ambiguous_bucket_no_rewrite_witness:
  "cache_ok (example_helpers []) (flex_system [(''flex'', []), (''d-flex'', [])]) Map.empty
   \<and> eligible display_flex
   \<and> signatures (flex_system [(''flex'', []), (''d-flex'', [])])
        (ds_printCandidate (flex_system [(''flex'', []), (''d-flex'', [])]) (base display_flex))
       = Some ''display: flex''
   \<and> 2 \<le> length (preComputedUtilities (example_helpers [])
              (flex_system [(''flex'', []), (''d-flex'', [])]) ''display: flex'')
   \<and> tryReplacements (example_helpers []) (flex_system [(''flex'', []), (''d-flex'', [])])
        ''display: flex'' (base display_flex) = []
   \<and> ds_parseCandidate (flex_system [(''flex'', []), (''d-flex'', [])]) ''[display:flex]''
       = [display_flex]
   \<and> migrateArbitraryUtilities (example_helpers []) (flex_system [(''flex'', []), (''d-flex'', [])])
        Map.empty ''[display:flex]'' = Some (Inr (''[display:flex]'', Map.empty))
   \<and> ds_parseCandidate (flex_system [(''flex'', []), (''d-flex'', [])]) ''[display:_flex_]''
       = [display_flex]
   \<and> ds_printCandidate (flex_system [(''flex'', []), (''d-flex'', [])]) display_flex
       = ''[display:flex]''
   \<and> migrateArbitraryUtilities (example_helpers []) (flex_system [(''flex'', []), (''d-flex'', [])])
        Map.empty ''[display:_flex_]'' = Some (Inr (''[display:flex]'', Map.empty))"
proof -
  let ?ds = "flex_system [(''flex'', []), (''d-flex'', [])]"
  have sig: "signatures ?ds (ds_printCandidate ?ds (base display_flex)) = Some ''display: flex''"
    by (simp add: flex_system_simps flex_prints)
  have amb: "2 \<le> length (preComputedUtilities (example_helpers []) ?ds ''display: flex'')"
    by (simp add: flex_ambiguous_bucket)
  note at_canonical = ambiguous_bucket_no_rewrite [OF cache_ok_empty flex_eligible(1) sig amb,
        of "base display_flex" "''[display:flex]''" "[]"]
  note at_input = ambiguous_bucket_no_rewrite [OF cache_ok_empty flex_eligible(1) sig amb,
        of "base display_flex" "''[display:_flex_]''" "[]"]
  from at_canonical [THEN conjunct1]
  have search: "tryReplacements (example_helpers []) ?ds ''display: flex'' (base display_flex) = []" .
  from at_canonical [THEN conjunct2, THEN conjunct2, THEN conjunct1]
  have unchanged: "migrateArbitraryUtilities (example_helpers []) ?ds Map.empty ''[display:flex]''
          = Some (Inr (''[display:flex]'', Map.empty))"
    by (simp add: flex_system_simps flex_prints)
  from at_input [THEN conjunct2, THEN conjunct2, THEN conjunct2]
  have reprinted: "migrateArbitraryUtilities (example_helpers []) ?ds Map.empty ''[display:_flex_]''
          = Some (Inr (''[display:flex]'', Map.empty))"
    by (simp add: flex_system_simps flex_prints flex_underscore_parse)
  note canonical = search unchanged
  from canonical reprinted sig amb show ?thesis
    by (simp add: cache_ok_empty flex_eligible flex_system_simps flex_prints flex_underscore_parse
          del: tryReplacements.simps)
qed

text \<open>
  Claim C3 as it stands fails on a text that is not in its printed form. The classes
  \<^verbatim>\<open>flex\<close> and \<^verbatim>\<open>d-flex\<close> share the signature of \<^verbatim>\<open>[display:flex]\<close>, so the bucket holds two
  names; the token \<^verbatim>\<open>[display:_flex_]\<close> is not returned unchanged, it is returned as
  \<^verbatim>\<open>[display:flex]\<close>.
\<close>

theorem ambiguous_token_reprinted:
  "eligible display_flex
   \<and> ds_parseCandidate (flex_system [(''flex'', []), (''d-flex'', [])]) ''[display:_flex_]''
       = [display_flex]
   \<and> signatures (flex_system [(''flex'', []), (''d-flex'', [])])
        (ds_printCandidate (flex_system [(''flex'', []), (''d-flex'', [])]) (base display_flex))
       = Some ''display: flex''
   \<and> preComputedUtilities (example_helpers [])
        (flex_system [(''flex'', []), (''d-flex'', [])]) ''display: flex'' = [''flex'', ''d-flex'']
   \<and> migrateArbitraryUtilities (example_helpers []) (flex_system [(''flex'', []), (''d-flex'', [])])
        Map.empty ''[display:_flex_]'' = Some (Inr (''[display:flex]'', Map.empty))
   \<and> ''[display:flex]'' \<noteq> ''[display:_flex_]''"
  by (simp add: flex_eligible flex_underscore_parse flex_system_simps flex_prints
        flex_ambiguous_bucket flex_ambiguous_run)


section \<open>The cache hit\<close>

text \<open>
  Claim C10. On a cache hit the text returned is the printed cached candidate with the
  variants and the important flag of the current token written over its own: whatever
  variants and flag the entry holds, the result is the same, and the cache is not changed.
\<close>

theorem cache_hit_reattaches:
  assumes el: "eligible c"
    and canonical: "ds_printCandidate ds c = rawCandidate"
    and hit: "cache (ds_printCandidate ds (base c)) = Some cached"
  shows "migrate_candidates h ds cache rawCandidate (c # rest) =
           CacheHit (ds_printCandidate ds (cached\<lparr>variants := variants c, important := important c\<rparr>))
    \<and> migrate_candidates h ds
          (cache(ds_printCandidate ds (base c) \<mapsto> cached\<lparr>variants := vs, important := b\<rparr>))
          rawCandidate (c # rest) =
           CacheHit (ds_printCandidate ds (cached\<lparr>variants := variants c, important := important c\<rparr>))
    \<and> (ds_parseCandidate ds rawCandidate = c # rest \<longrightarrow>
         migrateArbitraryUtilities h ds cache rawCandidate =
           Some (Inr (ds_printCandidate ds
                        (cached\<lparr>variants := variants c, important := important c\<rparr>), cache)))"
  using el canonical hit
  by (simp add: Let_def migrate_step [of h ds cache rawCandidate] result_of_def
        del: tryReplacements.simps)

theorem cache_hit_reattaches_witness:
  "eligible display_flex
   \<and> ds_printCandidate (flex_system [(''flex'', [])]) display_flex = ''[display:flex]''
   \<and> [''[display:flex]'' \<mapsto> reattach hover_flex flex]
        (ds_printCandidate (flex_system [(''flex'', [])]) (base display_flex))
       = Some (reattach hover_flex flex)
   \<and> migrateArbitraryUtilities (example_helpers []) (flex_system [(''flex'', [])])
        [''[display:flex]'' \<mapsto> reattach hover_flex flex] ''[display:flex]''
       = Some (Inr (''flex'', [''[display:flex]'' \<mapsto> reattach hover_flex flex]))"
proof -
  let ?ds = "flex_system [(''flex'', [])]"
  let ?cache = "[''[display:flex]'' \<mapsto> reattach hover_flex flex]"
  have canonical: "ds_printCandidate ?ds display_flex = ''[display:flex]''"
    by (simp add: flex_system_simps flex_prints)
  have hit: "?cache (ds_printCandidate ?ds (base display_flex)) = Some (reattach hover_flex flex)"
    by (simp add: flex_system_simps flex_prints)
  have printed: "print_example (reattach hover_flex flex
                 \<lparr>variants := variants display_flex, important := important display_flex\<rparr>) = ''flex''"
    by (simp add: reattach_def display_flex_def flex_def example_defs)
  show ?thesis
    using cache_hit_reattaches [where cache = ?cache and rest = "[]" and h = "example_helpers []",
        OF flex_eligible(1) canonical hit]
      canonical hit
    by (simp add: flex_eligible flex_system_simps printed)
qed

section \<open>What the cache holds\<close>

text \<open>
  Claim C6 says that every cached candidate has no variants and is not important. The
  entry is stored before lines 156--157 put the variants and the flag of the token on
  the very object that was stored: after migrating \<^verbatim>\<open>hover:[display:flex]!\<close> from an
  empty cache, the entry for \<^verbatim>\<open>[display:flex]\<close> is \<^verbatim>\<open>flex\<close> with the variant
  \<^verbatim>\<open>hover\<close> and the important flag.
\<close>

theorem cache_entry_keeps_variants:
  "migrateArbitraryUtilities (example_helpers []) (flex_system [(''flex'', [])]) Map.empty
     ''hover:[display:flex]!''
   = Some (Inr (''hover:flex!'',
        [''[display:flex]'' \<mapsto>
           \<lparr>utility = Static ''flex'', modifier = None, variants = [Variant ''hover''],
            important = True\<rparr>]))"
proof -
  have "reattach hover_flex flex =
      \<lparr>utility = Static ''flex'', modifier = None, variants = [Variant ''hover''], important = True\<rparr>"
    by (simp add: reattach_def hover_flex_def flex_def)
  then show ?thesis
    using flex_hover_run
    by (simp add: migrate_step [of _ _ _ "''hover:[display:flex]!''"] flex_system_simps
          result_of_def)
qed

section \<open>The candidates derived from the functional roots\<close>

text \<open>
  Claim C5 gives the order of the candidates for a root: the bare value, the bare value
  with the printed modifier, the spacing multiple without and with the modifier when there
  is one, the arbitrary value without and with the modifier. For \<^verbatim>\<open>bg-[#f00]/50\<close> in a
  design system without \<^verbatim>\<open>--spacing\<close> the texts parsed are these six: line 231
  interpolates the modifier object itself, not its printed form, and the missing spacing
  table gives \<^verbatim>\<open>undefined\<close>, which passes the test against \<^verbatim>\<open>null\<close> of line 240.
\<close>

theorem modifier_printed_as_object:
  "map utility (tryReplacements (example_helpers []) echo_system ''color: red'' red_half) =
     [Static ''bg-#f00'', Static ''bg-#f00[object Object]'',
      Static ''bg-undefined'', Static ''bg-undefined/50'',
      Static ''bg-[#f00]'', Static ''bg-[#f00]/50'']"
proof -
  have bucket: "preComputedUtilities (example_helpers []) echo_system ''color: red'' = []"
    by (simp add: preComputedUtilities_def echo_system_def)
  have undefined: "spacingMultiplier_of (example_helpers []) echo_system ''#f00'' = Undefined"
    by (simp add: spacingMultiplier_of_def spacing_def echo_system_def)
  show ?thesis
    by (subst tryReplacements.simps)
       (simp add: bucket undefined raw_value_def red_half_def,
        simp add: functional_candidates_def template_object_def template_multiplier_def
          parseCandidate_def echo_system_def example_helpers_def print_modifier_def)
qed

section \<open>The Variable Safety Check\<close>

text \<open>
  Claim C4, as amended. A token whose value has no text \<^verbatim>\<open>var(--\<close> in it, in these very
  characters, is accepted without a look at the replacement. For an eligible token the
  value scanned is its raw value, when that has \<^verbatim>\<open>var(--\<close> in it, and the check answers
  \<^verbatim>\<open>true\<close> exactly when every node anywhere in the parsed value is kept. Every node that
  is not a function named \<^verbatim>\<open>var\<close>, in these very characters, is kept. A \<^verbatim>\<open>var\<close> function
  without arguments is not. A \<^verbatim>\<open>var\<close> function with arguments is kept according to its
  first argument alone, the variable; the arguments after it, the fallback, are not read.
  For a variable without characters of the pattern syntax it is kept exactly when the CSS
  of the replacement has \<^verbatim>\<open>var(\<close>, the variable and then \<^verbatim>\<open>,\<close> or \<^verbatim>\<open>)\<close>, with or without
  a fallback there, and nowhere the variable followed by a colon. For any other variable
  it is kept exactly when the pattern \<^verbatim>\<open>var\(\<close>variable\<^verbatim>\<open>[,)]\s*\<close>, read as a regular
  expression by the host, matches that CSS, and the variable followed by a colon does not
  occur in it.
\<close>

theorem variable_check_sound:
  "(variable_value c = None \<longrightarrow> allVariablesAreUsed h ds c replacement = Inr True)
   \<and> (eligible c \<and> raw_value c = Some v \<longrightarrow>
        variable_value c = (if string_includes v ''var(--'' then Some v else None))
   \<and> (variable_value c = Some v \<longrightarrow>
        string_includes v ''var(--'' \<and> raw_value c = Some v)
   \<and> (variable_value c = Some v \<longrightarrow>
        (allVariablesAreUsed h ds c replacement = Inr True \<longleftrightarrow>
           (\<forall>node \<in> set (all_nodes (ValueParser_parse h v)).
              variable_kept h (replacementAsCss_of ds replacement) node)))
   \<and> (name \<noteq> ''var'' \<longrightarrow> variable_kept h css (FunctionNode name nodes))
   \<and> \<not> variable_kept h css (FunctionNode ''var'' [])
   \<and> (set (node_value first) \<inter> regexp_syntax = {} \<longrightarrow>
        (variable_kept h css (FunctionNode ''var'' (first # others)) \<longleftrightarrow>
           (string_includes css (''var('' @ node_value first @ '','')
              \<or> string_includes css (''var('' @ node_value first @ '')''))
           \<and> \<not> string_includes css (node_value first @ '':'')))
   \<and> (set (node_value first) \<inter> regexp_syntax \<noteq> {} \<longrightarrow>
        (variable_kept h css (FunctionNode ''var'' (first # others)) \<longleftrightarrow>
           RegExp_test h (var_pattern (node_value first)) css = Some True
           \<and> \<not> string_includes css (node_value first @ '':'')))"
proof -
  have none: "variable_value c = None \<longrightarrow> allVariablesAreUsed h ds c replacement = Inr True"
    by (simp add: allVariablesAreUsed_def)
  have scanned: "eligible c \<and> raw_value c = Some v \<longrightarrow>
        variable_value c = (if string_includes v ''var(--'' then Some v else None)"
    by (auto simp: variable_value_def raw_value_def eligible_def
          split: utility.splits option.splits utility_value.splits)
  have val: "variable_value c = Some v \<longrightarrow>
        string_includes v ''var(--'' \<and> raw_value c = Some v"
    by (auto simp: variable_value_def raw_value_def
          split: utility.splits option.splits utility_value.splits if_splits)
  have kept: "variable_value c = Some v \<longrightarrow>
        (allVariablesAreUsed h ds c replacement = Inr True \<longleftrightarrow>
           (\<forall>node \<in> set (all_nodes (ValueParser_parse h v)).
              variable_kept h (replacementAsCss_of ds replacement) node))"
    using accepted_iff_kept [of c v h ds replacement] by blast
  have other: "name \<noteq> ''var'' \<longrightarrow> variable_kept h css (FunctionNode name nodes)"
    by (simp add: variable_kept_def)
  have empty: "\<not> variable_kept h css (FunctionNode ''var'' [])"
    by (simp add: variable_kept_def)
  have literal: "set (node_value first) \<inter> regexp_syntax = {} \<longrightarrow>
        (variable_kept h css (FunctionNode ''var'' (first # others)) \<longleftrightarrow>
           (string_includes css (''var('' @ node_value first @ '','')
              \<or> string_includes css (''var('' @ node_value first @ '')''))
           \<and> \<not> string_includes css (node_value first @ '':''))"
    by (simp add: variable_kept_def test_var_pattern_def)
  have host: "set (node_value first) \<inter> regexp_syntax \<noteq> {} \<longrightarrow>
        (variable_kept h css (FunctionNode ''var'' (first # others)) \<longleftrightarrow>
           RegExp_test h (var_pattern (node_value first)) css = Some True
           \<and> \<not> string_includes css (node_value first @ '':''))"
    by (simp add: variable_kept_def test_var_pattern_def)
  from none scanned val kept other empty literal host show ?thesis by blast
qed

theorem variable_check_sound_witness:
  "variable_value brand = Some ''var(--brand)''
   \<and> ValueParser_parse brand_helpers ''var(--brand)'' = [FunctionNode ''var'' [WordNode ''--brand'']]
   \<and> set (node_value (WordNode ''--brand'')) \<inter> regexp_syntax = {}
   \<and> string_includes (replacementAsCss_of brand_system text_brand) ''var(--brand)''
   \<and> \<not> string_includes (replacementAsCss_of brand_system text_brand) ''--brand:''
   \<and> allVariablesAreUsed brand_helpers brand_system brand text_brand = Inr True
   \<and> \<not> string_includes (replacementAsCss_of brand_system flex) ''var(--brand)''
   \<and> allVariablesAreUsed brand_helpers brand_system brand flex \<noteq> Inr True
   \<and> variable_value flex = None
   \<and> allVariablesAreUsed brand_helpers brand_system flex text_brand = Inr True"
proof -
  have v: "variable_value brand = Some ''var(--brand)''"
    by (simp add: variable_value_def brand_def string_includes_def sublist_Cons_right)
  have p: "ValueParser_parse brand_helpers ''var(--brand)'' = [FunctionNode ''var'' [WordNode ''--brand'']]"
    by (simp add: brand_helpers_def example_defs)
  have l: "set (node_value (WordNode ''--brand'')) \<inter> regexp_syntax = {}"
    by (simp add: node_value_def regexp_syntax_def)
  have css: "string_includes (replacementAsCss_of brand_system text_brand) ''var(--brand)''"
    "\<not> string_includes (replacementAsCss_of brand_system text_brand) ''--brand:''"
    "\<not> string_includes (replacementAsCss_of brand_system flex) ''var(--brand)''"
    "\<not> string_includes (replacementAsCss_of brand_system flex) ''var(--brand,''"
    by (simp_all add: brand_css flex_css string_includes_def sublist_Cons_right)
  have f: "variable_value flex = None"
    by (simp add: variable_value_def flex_def)
  note inst = variable_check_sound [where v = "''var(--brand)''" and h = brand_helpers
      and ds = brand_system and first = "WordNode ''--brand''" and others = "[]"
      and name = "''calc''" and nodes = "[]"]
  note at_brand = inst [where c = brand and replacement = text_brand
      and css = "replacementAsCss_of brand_system text_brand"]
  note at_flex = inst [where c = brand and replacement = flex
      and css = "replacementAsCss_of brand_system flex"]
  from at_brand [THEN conjunct2, THEN conjunct2, THEN conjunct2, THEN conjunct2, THEN conjunct2,
      THEN conjunct2, THEN conjunct1] l css
  have kept: "variable_kept brand_helpers (replacementAsCss_of brand_system text_brand)
      (FunctionNode ''var'' [WordNode ''--brand''])"
    by (simp add: node_value_def)
  from at_flex [THEN conjunct2, THEN conjunct2, THEN conjunct2, THEN conjunct2, THEN conjunct2,
      THEN conjunct2, THEN conjunct1] l css
  have lost: "\<not> variable_kept brand_helpers (replacementAsCss_of brand_system flex)
      (FunctionNode ''var'' [WordNode ''--brand''])"
    by (simp add: node_value_def)
  have word: "variable_kept brand_helpers t (WordNode ''--brand'')" for t
    by (simp add: variable_kept_def)
  from at_brand [THEN conjunct2, THEN conjunct2, THEN conjunct2, THEN conjunct1] v kept word
  have yes: "allVariablesAreUsed brand_helpers brand_system brand text_brand = Inr True"
    by (simp add: p)
  from at_flex [THEN conjunct2, THEN conjunct2, THEN conjunct2, THEN conjunct1] v lost
  have no: "allVariablesAreUsed brand_helpers brand_system brand flex \<noteq> Inr True"
    by (simp add: p)
  from inst [where c = flex and replacement = text_brand and css = "[]", THEN conjunct1] f
  have free: "allVariablesAreUsed brand_helpers brand_system flex text_brand = Inr True"
    by simp
  from yes no free v p l css f show ?thesis by simp
qed


text \<open>
  Claim C4 as it stands fails: the fallback of a reference is not compared. The value
  \<^verbatim>\<open>var(--brand,#000)\<close> is accepted for a replacement whose CSS has \<^verbatim>\<open>var(--brand)\<close> and no
  \<^verbatim>\<open>var(--brand,\<close> anywhere. A reference written \<^verbatim>\<open>VAR(--brand)\<close> is not seen as one: the
  token is accepted for a replacement whose CSS is empty.
\<close>

theorem fallback_not_compared:
  "variable_value brand_fallback = Some ''var(--brand,#000)''
   \<and> ValueParser_parse fallback_helpers ''var(--brand,#000)''
       = [FunctionNode ''var'' [WordNode ''--brand'', SeparatorNode '','', WordNode ''#000'']]
   \<and> replacementAsCss_of brand_system text_brand = ''.text-brand { color: var(--brand); }''
   \<and> \<not> string_includes (replacementAsCss_of brand_system text_brand) ''var(--brand,''
   \<and> allVariablesAreUsed fallback_helpers brand_system brand_fallback text_brand = Inr True
   \<and> utility upper_brand = Arbitrary ''color'' ''VAR(--brand)''
   \<and> replacementAsCss_of brand_system flex = []
   \<and> allVariablesAreUsed fallback_helpers brand_system upper_brand flex = Inr True"
proof -
  have upper: "allVariablesAreUsed fallback_helpers brand_system upper_brand flex = Inr True"
    by (simp add: allVariablesAreUsed_def fallback_facts)
  have css: "\<not> string_includes ''.text-brand { color: var(--brand); }'' ''var(--brand,''"
    by (simp add: string_includes_def sublist_Cons_right)
  from upper css show ?thesis
    by (simp add: fallback_facts fallback_accepted brand_css flex_css upper_brand_def)
qed

section \<open>Termination of the canonicalization\<close>

text \<open>
  Claim C8. When the printer is idempotent on parsed candidates, the function returns for
  every input, and two nested calls are enough: the call on the input and at most one
  recursive call on its printed form. So every bound of at least two suffices, and for an
  input that is not empty the number of recursive calls is at most its length. The
  recursive call is only made with the printed form of an eligible parse that differs
  from the input, and the call on that printed form makes no further recursive call.
\<close>

theorem canonicalization_terminates:
  assumes "print_idempotent ds"
  shows "(\<exists>res. migrate_within (Suc (Suc n)) h ds cache rawCandidate = Some res
            \<and> (rawCandidate \<noteq> [] \<longrightarrow>
                  migrate_within (Suc (length rawCandidate)) h ds cache rawCandidate = Some res)
            \<and> migrateArbitraryUtilities h ds cache rawCandidate = Some res)
    \<and> (migrate_candidates h ds cache rawCandidate (ds_parseCandidate ds rawCandidate) = Restart s \<longrightarrow>
         s \<noteq> rawCandidate
         \<and> (\<exists>c \<in> set (ds_parseCandidate ds rawCandidate). eligible c \<and> s = ds_printCandidate ds c)
         \<and> (\<forall>s'. migrate_candidates h ds cache s (ds_parseCandidate ds s) \<noteq> Restart s'))"
proof -
  from two_calls [OF assms] obtain res where
    res: "migrate_within (Suc (Suc n)) h ds cache rawCandidate = Some res" by blast
  then have total: "migrateArbitraryUtilities h ds cache rawCandidate = Some res"
    by (rule migrate_within_sound)
  have "migrate_within (Suc (length rawCandidate)) h ds cache rawCandidate = Some res"
    if "rawCandidate \<noteq> []"
  proof -
    from that obtain k where k: "length rawCandidate = Suc k"
      by (cases rawCandidate) auto
    from two_calls [OF assms] obtain res' where
      res': "migrate_within (Suc (Suc k)) h ds cache rawCandidate = Some res'" by blast
    from migrate_within_sound [OF res'] total have "res' = res" by simp
    with res' k show ?thesis by (simp del: migrate_within.simps)
  qed
  with res total show ?thesis
    using migrate_candidates_Restart [of h ds cache rawCandidate _ s]
      no_second_restart [OF assms, of h cache rawCandidate s]
    by blast
qed

theorem canonicalization_terminates_witness:
  "print_idempotent (flex_system [(''flex'', [])])
   \<and> migrate_candidates (example_helpers []) (flex_system [(''flex'', [])]) Map.empty
        ''[display:_flex_]'' (ds_parseCandidate (flex_system [(''flex'', [])]) ''[display:_flex_]'')
       = Restart ''[display:flex]''
   \<and> migrate_within 2 (example_helpers []) (flex_system [(''flex'', [])]) Map.empty
        ''[display:_flex_]'' = Some (Inr (''flex'', [''[display:flex]'' \<mapsto> flex]))"
proof -
  from canonicalization_terminates [OF flex_idempotent, where n = 0 and h = "example_helpers []"
      and cache = Map.empty and rawCandidate = "''[display:_flex_]''"
      and classes1 = "[(''flex'', [])]"]
  obtain res where
    "migrate_within (Suc (Suc 0)) (example_helpers []) (flex_system [(''flex'', [])]) Map.empty
        ''[display:_flex_]'' = Some res"
    "migrateArbitraryUtilities (example_helpers []) (flex_system [(''flex'', [])]) Map.empty
        ''[display:_flex_]'' = Some res"
    by blast
  with flex_run flex_first flex_idempotent show ?thesis
    by (simp add: numeral_2_eq_2)
qed

section \<open>What is returned when nothing is migrated\<close>

text \<open>
  Claim C2, as amended. If every parsed candidate is passed over (the parser gives none,
  or each one is not eligible, or prints to the input, misses the cache and has no string
  signature or only rejected replacements), the input is returned unchanged and so is the
  cache. If the recursion of line 106 leads from the input to a text all of whose parsed
  candidates are passed over, that text is returned. If the printer is idempotent on
  parsed candidates, and the values the safety check is run on for this input (those of
  the eligible candidates parsed from the input or from a text the recursion reaches) have
  an argument in each \<^verbatim>\<open>var\<close> function and a name that gives a regular expression, the
  function returns a text: it neither raises nor runs forever. Nothing is assumed of the
  values the input does not lead to. The same holds, whatever the printer does on other
  texts, when the recursion leads from this input to a text on which the loop does not
  call the function again.
\<close>

theorem migrate_returns:
  "((\<forall>c \<in> set (ds_parseCandidate ds rawCandidate). passed_over h ds cache rawCandidate c) \<longrightarrow>
      migrateArbitraryUtilities h ds cache rawCandidate = Some (Inr (rawCandidate, cache)))
   \<and> (canonicalizes h ds cache rawCandidate s
        \<and> (\<forall>c \<in> set (ds_parseCandidate ds s). passed_over h ds cache s c) \<longrightarrow>
      migrateArbitraryUtilities h ds cache rawCandidate = Some (Inr (s, cache)))
   \<and> (print_idempotent ds \<and> scanned_values_safe h ds cache rawCandidate \<longrightarrow>
        (\<exists>out cache'. migrateArbitraryUtilities h ds cache rawCandidate = Some (Inr (out, cache'))))
   \<and> (canonicalizes h ds cache rawCandidate s
        \<and> (\<forall>y. migrate_candidates h ds cache s (ds_parseCandidate ds s) \<noteq> Restart y)
        \<and> scanned_values_safe h ds cache rawCandidate \<longrightarrow>
        (\<exists>out cache'. migrateArbitraryUtilities h ds cache rawCandidate = Some (Inr (out, cache'))))"
proof -
  have unchanged: "migrateArbitraryUtilities h ds cache rawCandidate = Some (Inr (rawCandidate, cache))"
    if "\<forall>c \<in> set (ds_parseCandidate ds rawCandidate). passed_over h ds cache rawCandidate c"
    for rawCandidate
    using passed_over_all [OF that, of "[]"]
    by (simp add: migrate_step [of h ds cache rawCandidate] result_of_def)
  have canonical: "migrateArbitraryUtilities h ds cache rawCandidate = Some (Inr (s, cache))"
    if "canonicalizes h ds cache rawCandidate s"
      "\<forall>c \<in> set (ds_parseCandidate ds s). passed_over h ds cache s c"
    using migrate_restart [OF that(1)] unchanged [OF that(2)] by simp
  have returns: "\<exists>out cache'. migrateArbitraryUtilities h ds cache rawCandidate = Some (Inr (out, cache'))"
    if idem: "print_idempotent ds" and safe: "scanned_values_safe h ds cache rawCandidate"
  proof -
    from two_calls [OF idem, of 0 h cache rawCandidate] obtain res where
      "migrate_within (Suc (Suc 0)) h ds cache rawCandidate = Some res" by blast
    then have res: "migrateArbitraryUtilities h ds cache rawCandidate = Some res"
      by (rule migrate_within_sound)
    from migrate_final [OF res] obtain s where
      chain: "canonicalizes h ds cache rawCandidate s" and
      final: "result_of cache s (migrate_candidates h ds cache s (ds_parseCandidate ds s)) = Some res"
      by blast
    have "res \<noteq> Inl e" for e
    proof
      assume "res = Inl e"
      with final have "migrate_candidates h ds cache s (ds_parseCandidate ds s) = Raise e"
        by (cases "migrate_candidates h ds cache s (ds_parseCandidate ds s)")
           (simp_all add: result_of_def)
      from migrate_candidates_Raise [OF this] obtain c r where
        c: "c \<in> set (ds_parseCandidate ds s)" "eligible c" "allVariablesAreUsed h ds c r = Inl e"
        by blast
      from check_raises_value [OF c(3)] obtain v where
        "variable_value c = Some v" "\<not> value_safe h v" by blast
      with safe chain c(1,2) show False
        unfolding scanned_values_safe_def by blast
    qed
    with res show ?thesis by (cases res) auto
  qed
  have ends: "\<exists>out cache'. migrateArbitraryUtilities h ds cache rawCandidate = Some (Inr (out, cache'))"
    if chain: "canonicalizes h ds cache rawCandidate s"
      and last: "\<forall>y. migrate_candidates h ds cache s (ds_parseCandidate ds s) \<noteq> Restart y"
      and safe: "scanned_values_safe h ds cache rawCandidate"
  proof (cases "migrate_candidates h ds cache s (ds_parseCandidate ds s)")
    case (Restart y)
    with last show ?thesis by simp
  next
    case (Raise e)
    from migrate_candidates_Raise [OF this] obtain c r where
      c: "c \<in> set (ds_parseCandidate ds s)" "eligible c" "allVariablesAreUsed h ds c r = Inl e"
      by blast
    from check_raises_value [OF c(3)] obtain v where
      "variable_value c = Some v" "\<not> value_safe h v" by blast
    with safe chain c(1,2) have False
      unfolding scanned_values_safe_def by blast
    then show ?thesis ..
  next
    case (CacheHit out)
    with migrate_restart [OF chain] show ?thesis
      by (simp add: migrate_step [of h ds cache s] result_of_def)
  next
    case (Migrated out cache')
    with migrate_restart [OF chain] show ?thesis
      by (simp add: migrate_step [of h ds cache s] result_of_def)
  next
    case Unchanged
    with migrate_restart [OF chain] show ?thesis
      by (simp add: migrate_step [of h ds cache s] result_of_def)
  qed
  from unchanged canonical returns ends show ?thesis by blast
qed

theorem migrate_returns_witness:
  "ds_parseCandidate (flex_system []) ''[display:flex]'' = [display_flex]
   \<and> passed_over (example_helpers []) (flex_system []) Map.empty ''[display:flex]'' display_flex
   \<and> migrateArbitraryUtilities (example_helpers []) (flex_system []) Map.empty ''[display:flex]''
       = Some (Inr (''[display:flex]'', Map.empty))
   \<and> canonicalizes (example_helpers []) (flex_system []) Map.empty ''[display:_flex_]''
        ''[display:flex]''
   \<and> migrateArbitraryUtilities (example_helpers []) (flex_system []) Map.empty ''[display:_flex_]''
       = Some (Inr (''[display:flex]'', Map.empty))
   \<and> print_idempotent brand_system
   \<and> scanned_values_safe mixed_helpers brand_system Map.empty ''[color:var(--brand)]''
   \<and> \<not> value_safe mixed_helpers ''var()''
   \<and> migrateArbitraryUtilities mixed_helpers brand_system Map.empty ''[color:var(--brand)]''
       = Some (Inr (''text-brand'', [''[color:var(--brand)]'' \<mapsto> text_brand]))
   \<and> \<not> print_idempotent swap_system
   \<and> canonicalizes (example_helpers []) swap_system Map.empty ''flex'' ''flex''
   \<and> migrate_candidates (example_helpers []) swap_system Map.empty ''flex''
        (ds_parseCandidate swap_system ''flex'') = Unchanged
   \<and> scanned_values_safe (example_helpers []) swap_system Map.empty ''flex''
   \<and> migrateArbitraryUtilities (example_helpers []) swap_system Map.empty ''flex''
       = Some (Inr (''flex'', Map.empty))"
proof -
  note repl = flex_empty_search
  have over: "\<forall>c \<in> set (ds_parseCandidate (flex_system []) ''[display:flex]'').
       passed_over (example_helpers []) (flex_system []) Map.empty ''[display:flex]'' c"
    by (simp add: passed_over_def flex_system_simps flex_prints repl del: tryReplacements.simps)
  from migrate_returns [where ds = "flex_system []" and rawCandidate = "''[display:flex]''"
      and h = "example_helpers []" and cache = Map.empty] over
  have one: "migrateArbitraryUtilities (example_helpers []) (flex_system []) Map.empty ''[display:flex]''
       = Some (Inr (''[display:flex]'', Map.empty))"
    by blast
  from migrate_returns [where ds = "flex_system []" and rawCandidate = "''[display:_flex_]''"
      and h = "example_helpers []" and cache = Map.empty and s = "''[display:flex]''"]
    over flex_canonicalizes
  have chain: "migrateArbitraryUtilities (example_helpers []) (flex_system []) Map.empty
      ''[display:_flex_]'' = Some (Inr (''[display:flex]'', Map.empty))"
    by blast
  from migrate_returns [where ds = brand_system and rawCandidate = "''[color:var(--brand)]''"
      and h = mixed_helpers and cache = Map.empty]
    brand_idempotent mixed_scanned
  obtain out cache' where "migrateArbitraryUtilities mixed_helpers brand_system Map.empty
      ''[color:var(--brand)]'' = Some (Inr (out, cache'))"
    by blast
  with mixed_run
  have two: "migrateArbitraryUtilities mixed_helpers brand_system Map.empty ''[color:var(--brand)]''
       = Some (Inr (''text-brand'', [''[color:var(--brand)]'' \<mapsto> text_brand]))"
    by (simp add: migrate_step [of _ _ _ "''[color:var(--brand)]''"] result_of_def)
  have bad: "\<not> value_safe mixed_helpers ''var()''"
    by (simp add: value_safe_def mixed_helpers_def example_defs)
  from over have "passed_over (example_helpers []) (flex_system []) Map.empty ''[display:flex]''
      display_flex"
    by (simp add: flex_system_simps)
  have last: "\<forall>y. migrate_candidates (example_helpers []) swap_system Map.empty ''flex''
      (ds_parseCandidate swap_system ''flex'') \<noteq> Restart y"
    by (simp add: swap_flex(2))
  from migrate_returns [where ds = swap_system and rawCandidate = "''flex''"
      and h = "example_helpers []" and cache = Map.empty and s = "''flex''",
      THEN conjunct2, THEN conjunct2, THEN conjunct2]
    last swap_flex(3) [of "example_helpers []" Map.empty]
    canonicalizes.stop [of "example_helpers []" swap_system Map.empty "''flex''"]
  obtain out cache' where "migrateArbitraryUtilities (example_helpers []) swap_system Map.empty
      ''flex'' = Some (Inr (out, cache'))"
    by blast
  moreover have "migrateArbitraryUtilities (example_helpers []) swap_system Map.empty ''flex''
       = result_of Map.empty ''flex'' Unchanged"
    by (simp add: migrate_step [of _ _ _ "''flex''"] swap_flex(2))
  ultimately
  have three: "migrateArbitraryUtilities (example_helpers []) swap_system Map.empty ''flex''
       = Some (Inr (''flex'', Map.empty))"
    by (simp add: result_of_def)
  from \<open>passed_over (example_helpers []) (flex_system []) Map.empty ''[display:flex]''
      display_flex\<close>
    one chain two three bad brand_idempotent mixed_scanned flex_canonicalizes
  show ?thesis
    by (simp add: flex_system_simps canonicalizes.stop swap_flex)
qed

text \<open>
  Claim C2 as it stands fails in three ways. With no class of the same signature and no
  functional root, no replacement is generated for \<^verbatim>\<open>[display:_flex_]\<close>, and the text
  returned is the canonical \<^verbatim>\<open>[display:flex]\<close>, not the input. With a printer that does
  not give back what was parsed, the recursion of line 106 never ends: no depth of nested
  calls reaches a \<^verbatim>\<open>return\<close> of a text, so in JavaScript the call stack is used up and the
  call ends with a \<^verbatim>\<open>RangeError\<close>. And a value with a \<^verbatim>\<open>var()\<close> without arguments makes
  line 323 raise a \<^verbatim>\<open>TypeError\<close>.
\<close>

theorem input_not_returned_unchanged:
  "ds_parseCandidate (flex_system []) ''[display:flex]'' = [display_flex]
   \<and> tryReplacements (example_helpers []) (flex_system []) ''display: flex'' (base display_flex) = []
   \<and> migrateArbitraryUtilities (example_helpers []) (flex_system []) Map.empty ''[display:_flex_]''
       = Some (Inr (''[display:flex]'', Map.empty))
   \<and> migrateArbitraryUtilities (example_helpers []) swap_system Map.empty ''[x:a]'' = None
   \<and> (\<forall>n. migrate_within n (example_helpers []) swap_system Map.empty ''[x:a]'' = None)
   \<and> migrateArbitraryUtilities margin_helpers margin_system Map.empty ''[margin:var(--x) var()]''
       = Some (Inl TypeError)"
proof -
  note repl = flex_empty_search
  show ?thesis
    using repl flex_canonical_only margin_raises
    by (simp add: flex_system_simps swap_never_returns swap_within(1) del: tryReplacements.simps)
qed

section \<open>The parses of one text\<close>

text \<open>
  Claim C7, as amended. The parses are processed in order. Those that are passed over
  (not eligible, or printing to the input without a cache entry, a string signature or an
  accepted replacement) leave the result to the parses after them; the first parse that
  is not passed over decides the result of the loop, whatever parses follow it.
\<close>

theorem parses_in_order:
  assumes "\<forall>p \<in> set skipped. passed_over h ds cache rawCandidate p"
  shows "migrate_candidates h ds cache rawCandidate (skipped @ rest)
           = migrate_candidates h ds cache rawCandidate rest
    \<and> (\<not> passed_over h ds cache rawCandidate c \<longrightarrow>
          migrate_candidates h ds cache rawCandidate (skipped @ c # rest)
            = migrate_candidates h ds cache rawCandidate [c]
          \<and> migrate_candidates h ds cache rawCandidate [c] \<noteq> Unchanged)"
  using passed_over_all [OF assms] not_passed_over [of h ds cache rawCandidate c rest]
  by (simp del: migrate_candidates.simps)

theorem parses_in_order_witness:
  "passed_over (example_helpers []) two_parse_system Map.empty ''[display:flex]'' named_after_text
   \<and> \<not> passed_over (example_helpers []) two_parse_system Map.empty ''[display:flex]'' display_flex
   \<and> migrate_candidates (example_helpers []) two_parse_system Map.empty ''[display:flex]''
        ([named_after_text] @ display_flex # [flex])
       = Migrated ''flex'' [''[display:flex]'' \<mapsto> flex]"
proof -
  have over: "\<forall>p \<in> set [named_after_text].
       passed_over (example_helpers []) two_parse_system Map.empty ''[display:flex]'' p"
    by (simp add: passed_over_def two_parse_facts)
  have decides: "\<not> passed_over (example_helpers []) two_parse_system Map.empty ''[display:flex]''
      display_flex"
  proof
    assume "passed_over (example_helpers []) two_parse_system Map.empty ''[display:flex]'' display_flex"
    from passed_over_skip [OF this, of "[]"] two_parse_second show False by simp
  qed
  from parses_in_order [OF over, where c = display_flex and rest = "[flex]"] decides
    two_parse_second over
  show ?thesis by (simp del: migrate_candidates.simps)
qed

text \<open>
  Claim C7 as it stands says that only the first parse is processed. Here the first
  parse is not eligible, the loop over it alone leaves the text unchanged, and the
  function migrates the second parse.
\<close>

theorem later_parse_is_processed:
  "ds_parseCandidate two_parse_system ''[display:flex]'' = [named_after_text, display_flex]
   \<and> \<not> eligible named_after_text
   \<and> migrate_candidates (example_helpers []) two_parse_system Map.empty ''[display:flex]''
        [named_after_text] = Unchanged
   \<and> migrateArbitraryUtilities (example_helpers []) two_parse_system Map.empty ''[display:flex]''
       = Some (Inr (''flex'', [''[display:flex]'' \<mapsto> flex]))"
proof -
  have over: "passed_over (example_helpers []) two_parse_system Map.empty ''[display:flex]''
      named_after_text"
    by (simp add: passed_over_def two_parse_facts)
  from passed_over_skip [OF over, of "[]"]
  have alone: "migrate_candidates (example_helpers []) two_parse_system Map.empty ''[display:flex]''
      [named_after_text] = Unchanged"
    by simp
  from passed_over_skip [OF over, of "[display_flex]"] two_parse_second
  have both: "migrate_candidates (example_helpers []) two_parse_system Map.empty ''[display:flex]''
      [named_after_text, display_flex] = Migrated ''flex'' [''[display:flex]'' \<mapsto> flex]"
    by (simp del: migrate_candidates.simps)
  show ?thesis
    using alone both
    by (simp add: migrate_step [of _ _ _ "''[display:flex]''"] two_parse_facts result_of_def
          del: migrate_candidates.simps)
qed

section \<open>A second pass\<close>






end
